theory Spec2Isabelle
  imports Main "HOL-Library.Word"
begin

section \<open>The GPU execution event tracer (\<open>cupti_tracer.cc\<close>)\<close>

text \<open>
  A shallow embedding of the CUPTI tracer: the per-thread event buffer, the driver-API
  callback dispatcher with its CUDA-graph bookkeeping, the activity-buffer path and the
  enable/disable life cycle. Mutation is explicit state passing; a dereference of a null
  pointer, of an empty \<open>std::optional\<close> or of \<open>begin()\<close> of an empty container is an
  error value; calls into the vendor library and notifications of the collector are
  recorded in a trace.
\<close>

subsection \<open>Machine types\<close>

type_synonym u32 = "32 word"
type_synonym u64 = "64 word"

text \<open>An \<open>int64_t\<close> is its 64 bits (two's complement); ids are only compared for equality.\<close>

type_synonym i64 = "64 word"

text \<open>Pointers and opaque vendor handles are addresses; \<open>nullptr\<close> is \<open>0\<close>.\<close>

type_synonym CUcontext = u64
type_synonym handle = u64

subsection \<open>Event model\<close>

text \<open>
  Modelled from the spec: the enumerations and the event record of
  \<open>cupti_buffer_events.h\<close>, which the tracer includes and which is not among the
  sources. The constructors and fields are the ones \<open>cupti_tracer.cc\<close> names.
\<close>

datatype CuptiTracerEventType =
  Unsupported | Kernel | MemcpyH2D | MemcpyD2H | MemcpyD2D | MemcpyP2P | MemcpyOther
  | Memset | MemoryAlloc | MemoryFree | HostRegister | HostUnregister
  | CudaGraph | CudaGraphNodeMap | Generic

datatype CuptiTracerEventSource = Invalid | DriverCallback | Activity

text \<open>
  Driver callback ids. The ids the dispatcher routes to the two CUDA-graph handlers are
  constructors of their own; every other id (kernel launches, copies, memsets,
  allocations, host registration, and ids the tracer does not know) is \<open>OtherCbid\<close>
  with its number, which is not the number of one of the named ids.
\<close>

datatype CUpti_CallbackId =
  cuGraphCreate | cuGraphInstantiate | cuGraphLaunch | cuGraphLaunch_ptsz | cuGraphClone
  | cuGraphInstantiate_v2 | cuGraphInstantiateWithFlags | cuGraphInstantiateWithParams
  | cuGraphInstantiateWithParams_ptsz
  | cuGraphAddKernelNode | cuGraphAddKernelNode_v2 | cuGraphAddMemcpyNode
  | cuGraphAddMemsetNode | cuGraphAddChildGraphNode | cuGraphAddEmptyNode
  | cuGraphAddHostNode | cuGraphAddNode | cuGraphAddNode_v2 | cuGraphAddEventRecordNode
  | cuGraphAddEventWaitNode | cuGraphAddExternalSemaphoresSignalNode
  | cuGraphAddExternalSemaphoresWaitNode | cuGraphAddMemAllocNode | cuGraphAddMemFreeNode
  | cuGraphAddBatchMemOpNode
  | cuCtxDestroy | cuCtxDestroy_v2
  | OtherCbid u32

record CudaGraphDetails =
  cbid :: "CUpti_CallbackId option"
  orig_graph_id :: u32
  orig_graph_node_id :: u64

text \<open>
  The payloads of the other event kinds (spec, data model): they are written by the
  decoders of the copy, memset, allocation and registration families only.
\<close>

datatype OtherDetails =
  NoDetails
  | MemcpyDetails u64 u32 bool
  | MemsetDetails u64 bool
  | MemAllocDetails u64 u64
  | MemFreeDetails u64
  | HostRegisterDetails u64 u64 u32
  | HostUnregisterDetails u64
  | GenericDetails CUpti_CallbackId

record CuptiTracerEvent =
  type :: CuptiTracerEventType
  source :: CuptiTracerEventSource
  name :: string
  annotation :: string
  nvtx_range :: string
  start_time_ns :: u64
  end_time_ns :: u64
  device_id :: u32
  correlation_id :: u32
  thread_id :: u32
  context_id :: u32
  scope_range_id :: i64
  graph_id :: u32
  graph_node_id :: u64
  cuda_graph_info :: CudaGraphDetails
  other_info :: OtherDetails

text \<open>The value-initialised event \<open>CuptiTracerEvent event{}\<close>.\<close>

definition empty_event :: CuptiTracerEvent where
  "empty_event =
     \<lparr>type = Unsupported, source = Invalid, name = [], annotation = [], nvtx_range = [],
      start_time_ns = 0, end_time_ns = 0, device_id = 0, correlation_id = 0,
      thread_id = 0, context_id = 0, scope_range_id = 0, graph_id = 0, graph_node_id = 0,
      cuda_graph_info = \<lparr>cbid = None, orig_graph_id = 0, orig_graph_node_id = 0\<rparr>,
      other_info = NoDetails\<rparr>"

subsection \<open>The per-thread collection\<close>

type_synonym ScopeRangeIdTree = "i64 \<rightharpoonup> i64"

text \<open>
  Modelled from the spec: \<open>CallbackAnnotationsAndEvents\<close> of \<open>cupti_buffer_events.h\<close>
  (not among the sources), "an ordered sequence of TracerEvents, a deduplicated set of
  annotation strings, a dropped-event counter, and a scope-range-id parent tree". The
  deduplicated sets are duplicate-free lists in order of first insertion, so the number of
  annotations is the length. Counters are \<open>size_t\<close> in the source; they count objects
  held in memory and are natural numbers here.
\<close>

record CallbackAnnotationsAndEvents =
  annotations :: "string list"
  nvtx_ranges :: "string list"
  event_queue :: "CuptiTracerEvent list"
  num_dropped_events :: nat
  scope_range_id_tree :: ScopeRangeIdTree

text \<open>The default-constructed collection.\<close>

definition empty_annotations_and_events :: CallbackAnnotationsAndEvents where
  "empty_annotations_and_events =
     \<lparr>annotations = [], nvtx_ranges = [], event_queue = [], num_dropped_events = 0,
      scope_range_id_tree = Map.empty\<rparr>"

text \<open>
  Modelled from the spec: deduplication stores a string once and hands back the stored
  copy, which has the same characters; the empty string is no annotation and is not
  stored.
\<close>

definition Dedup :: "string list \<Rightarrow> string \<Rightarrow> string \<times> string list" where
  "Dedup strings str =
     (if str = [] then ([], strings)
      else if str \<in> set strings then (str, strings)
      else (str, strings @ [str]))"

definition NumAnnotations :: "CallbackAnnotationsAndEvents \<Rightarrow> nat" where
  "NumAnnotations b = length (annotations b)"

definition DedupAnnotation ::
  "CallbackAnnotationsAndEvents \<Rightarrow> string \<Rightarrow> string \<times> CallbackAnnotationsAndEvents" where
  "DedupAnnotation b str =
     (case Dedup (annotations b) str of (s, strings) \<Rightarrow> (s, b\<lparr>annotations := strings\<rparr>))"

definition DedupNvtxRange ::
  "CallbackAnnotationsAndEvents \<Rightarrow> string \<Rightarrow> string \<times> CallbackAnnotationsAndEvents" where
  "DedupNvtxRange b str =
     (case Dedup (nvtx_ranges b) str of (s, strings) \<Rightarrow> (s, b\<lparr>nvtx_ranges := strings\<rparr>))"

subsection \<open>Options, collector and tracer object\<close>

text \<open>
  Modelled from the spec: the option structures of \<open>cupti_collector.h\<close> and
  \<open>cupti_tracer.h\<close> (not among the sources), with the fields the tracer reads. A
  ceiling of \<open>0\<close> means no ceiling.
\<close>

record CuptiTracerCollectorOptions =
  max_callback_api_events :: nat
  max_activity_api_events :: nat
  max_annotation_strings :: nat

record CuptiTraceCollector =
  GetOptions :: CuptiTracerCollectorOptions

datatype CUpti_ActivityKind =
  CUPTI_ACTIVITY_KIND_MARKER | CUPTI_ACTIVITY_KIND_UNIFIED_MEMORY_COUNTER
  | CUPTI_ACTIVITY_KIND_CONCURRENT_KERNEL | OtherActivityKind nat

record CuptiTracerOptions =
  enable_nvtx_tracking :: bool
  required_callback_api_events :: bool
  cbids_selected :: "CUpti_CallbackId list"
  activities_selected :: "CUpti_ActivityKind list"
  cupti_finalize :: bool
  sync_devices_before_stop :: bool
  pm_sampler_enable :: bool

text \<open>\<open>CuptiDriverApiHookWithActivityApi\<close>: its copy of the options and the contexts seen.\<close>

record CuptiDriverApiHook =
  hook_option :: CuptiTracerOptions
  contexts :: "CUcontext list"

text \<open>
  Modelled from the spec: \<open>CuptiActivityBufferManager\<close> (not among the sources): a pool
  of buffers free for reuse and the list of filled buffers cached for delivery, each with
  its valid size.
\<close>

record CuptiActivityBufferManager =
  buffer_size_in_bytes :: nat
  pool :: "u64 list"
  cached_buffers :: "(u64 \<times> nat) list"

text \<open>
  The data members of \<open>CuptiTracer\<close>, named as in the source without the trailing
  underscore. A \<open>unique_ptr\<close> or raw pointer is an option (\<open>None\<close> is null), and so is
  the \<open>std::optional\<close> member \<open>option_\<close>.
\<close>

record CuptiTracer =
  num_gpus :: int
  option :: "CuptiTracerOptions option"
  collector :: "CuptiTraceCollector option"
  cupti_driver_api_hook :: "CuptiDriverApiHook option"
  pm_sampler :: "unit option"
  activity_buffers :: "CuptiActivityBufferManager option"
  api_tracing_enabled :: bool
  activity_tracing_enabled :: bool
  pm_sampling_enabled :: bool
  need_root_access :: bool
  num_callback_events :: nat
  cupti_dropped_activity_event_count :: nat
  num_activity_events_in_cached_buffer :: nat
  num_activity_events_in_dropped_buffer :: nat

definition TooManyCallbackEvents :: "CuptiTracer \<Rightarrow> bool" where
  "TooManyCallbackEvents tr =
     (case collector tr of
        Some c \<Rightarrow>
          (let count = num_callback_events tr;
               max_events = max_callback_api_events (GetOptions c)
           in max_events > 0 \<and> count \<ge> max_events)
      | None \<Rightarrow> True)"

definition TooManyAnnotationStrings :: "CuptiTracer \<Rightarrow> nat \<Rightarrow> bool" where
  "TooManyAnnotationStrings tr count =
     (case collector tr of
        Some c \<Rightarrow>
          (let max_strings = max_annotation_strings (GetOptions c)
           in max_strings > 0 \<and> count \<ge> max_strings)
      | None \<Rightarrow> True)"

subsection \<open>\<open>GuardedCallbackAnnotationsAndEvents\<close>\<close>

text \<open>
  One instance per thread. The mutex only serialises the owning thread against the
  draining thread; each method below is one critical section, so the guarded object is
  the collection itself.
\<close>

text \<open>
  \<open>Consume\<close> swaps the collection with a default-constructed one: the result is what was
  grabbed, paired with what the thread is left with.
\<close>

definition Consume ::
  "CallbackAnnotationsAndEvents \<Rightarrow> CallbackAnnotationsAndEvents \<times> CallbackAnnotationsAndEvents"
  where
  "Consume g = (g, empty_annotations_and_events)"

text \<open>
  Modelled from the spec: \<open>CallbackAnnotationsAndEvents::Clear\<close> and
  \<open>IncNumDroppedEvents\<close> (not among the sources) reset the collection and add one to its
  dropped-event counter.
\<close>

definition Clear :: "CallbackAnnotationsAndEvents \<Rightarrow> CallbackAnnotationsAndEvents" where
  "Clear g = empty_annotations_and_events"

definition IncNumDroppedEvents ::
  "CallbackAnnotationsAndEvents \<Rightarrow> CallbackAnnotationsAndEvents" where
  "IncNumDroppedEvents g = g\<lparr>num_dropped_events := num_dropped_events g + 1\<rparr>"

text \<open>
  \<open>Push\<close>. Modelled from the spec: \<open>event_queue().Push\<close> (the queue class is not among
  the sources) appends to the ordered sequence of events.
\<close>

definition Push ::
  "CuptiTracer \<Rightarrow> CallbackAnnotationsAndEvents \<Rightarrow> CuptiTracerEvent
     \<Rightarrow> CallbackAnnotationsAndEvents" where
  "Push tracer g event =
     (let too_many_annotations = TooManyAnnotationStrings tracer (NumAnnotations g)
      in case DedupAnnotation g (if too_many_annotations then [] else annotation event) of
           (a, g1) \<Rightarrow>
         (case DedupNvtxRange g1 (if too_many_annotations then [] else nvtx_range event) of
           (r, g2) \<Rightarrow>
             g2\<lparr>event_queue := event_queue g2 @ [event\<lparr>annotation := a, nvtx_range := r\<rparr>]\<rparr>))"

text \<open>
  The loop of \<open>AddScopeRangeIdSequence\<close>: \<open>curr\<close> starts at the last element and walks
  towards \<open>head\<close>. The list argument is the part of the sequence from \<open>head\<close> to \<open>curr\<close>,
  reversed, so its first element \<open>cur\<close> is \<open>*curr\<close> and its second is \<open>*(curr - 1)\<close>; \<open>curr > head\<close>
  holds while a second element exists.
\<close>

fun add_parent_links :: "ScopeRangeIdTree \<Rightarrow> i64 list \<Rightarrow> ScopeRangeIdTree" where
  "add_parent_links tree (cur # parent # others) =
     (if tree cur \<noteq> None then tree
      else add_parent_links (tree(cur \<mapsto> parent)) (parent # others))"
| "add_parent_links tree [cur] = tree"
| "add_parent_links tree [] = tree"

definition AddScopeRangeIdSequence ::
  "CallbackAnnotationsAndEvents \<Rightarrow> i64 list \<Rightarrow> CallbackAnnotationsAndEvents" where
  "AddScopeRangeIdSequence g sequence =
     (if length sequence > 1
      then g\<lparr>scope_range_id_tree := add_parent_links (scope_range_id_tree g) (rev sequence)\<rparr>
      else g)"

text \<open>A sequence of \<open>Push\<close> calls on one buffer, in issuance order.\<close>

definition PushAll ::
  "CuptiTracer \<Rightarrow> CallbackAnnotationsAndEvents \<Rightarrow> CuptiTracerEvent list
     \<Rightarrow> CallbackAnnotationsAndEvents" where
  "PushAll tracer g events = foldl (Push tracer) g events"

text \<open>An event traced without context: annotation and range label empty.\<close>

definition without_context :: "CuptiTracerEvent \<Rightarrow> CuptiTracerEvent" where
  "without_context e = e\<lparr>annotation := [], nvtx_range := []\<rparr>"

subsection \<open>Errors, statuses and the vendor interface\<close>

text \<open>
  What C++ leaves undefined is an error value of the model: the dereference of a null
  pointer (\<open>collector_\<close>, \<open>cupti_driver_api_hook_\<close>, \<open>pm_sampler_\<close>, \<open>activity_buffers_\<close>),
  of an empty \<open>std::optional\<close> (\<open>option_\<close>), and of \<open>begin()\<close> of an empty map.
\<close>

datatype error = NullPointerDereference | EmptyOptionalDereference | EmptyMapBeginDereference

datatype Status = OkStatus | InternalError string | PermissionDeniedError string

datatype CUptiResult =
  CUPTI_SUCCESS | CUPTI_ERROR_INSUFFICIENT_PRIVILEGES | CUPTI_ERROR_OTHER nat

datatype CUpti_ApiCallbackSite = CUPTI_API_ENTER | CUPTI_API_EXIT | OtherCallbackSite

datatype CUpti_CallbackDomain = CUPTI_CB_DOMAIN_DRIVER_API | CUPTI_CB_DOMAIN_RESOURCE

datatype CUpti_CallbackIdResource =
  CUPTI_CBID_RESOURCE_GRAPH_CREATED | CUPTI_CBID_RESOURCE_GRAPH_CLONED
  | CUPTI_CBID_RESOURCE_GRAPHEXEC_CREATED | CUPTI_CBID_RESOURCE_GRAPHNODE_CREATED
  | CUPTI_CBID_RESOURCE_GRAPHNODE_CLONED | OtherResourceCbid nat

text \<open>
  \<open>CUpti_CallbackData\<close>. \<open>correlationData\<close> is the value in the slot the vendor library
  keeps for one API call between its entry and its exit callback; \<open>cu_context\<close> is the
  field \<open>context\<close>; \<open>functionParams\<close> is the
  address of the parameter block.
\<close>

record CUpti_CallbackData =
  callbackSite :: CUpti_ApiCallbackSite
  functionName :: string
  symbolName :: "string option"
  cu_context :: CUcontext
  contextUid :: u32
  correlationId :: u32
  correlationData :: u64
  functionParams :: u64

record CUpti_GraphData =
  graph :: handle
  originalGraph :: handle
  node :: handle
  originalNode :: handle
  graphExec :: handle

text \<open>Calls into the vendor library and the platform that have an effect there.\<close>

datatype VendorCall =
  Subscribe | Unsubscribe
  | EnableCallback bool CUpti_CallbackDomain "CUpti_CallbackIdResource + CUpti_CallbackId"
  | EnableDomain bool CUpti_CallbackDomain
  | SetThreadIdType | ActivityUsePerThreadBuffer | ActivityRegisterCallbacks
  | ActivityConfigureUnifiedMemoryCounter bool
  | ActivityEnable CUpti_ActivityKind | ActivityDisable CUpti_ActivityKind
  | ActivityFlushAll bool
  | CleanUp | CuptiFinalize
  | CreatePmSampler | StartSampler | StopSampler | Deinitialize
  | cuCtxPushCurrent CUcontext | cuCtxSynchronize | cuCtxPopCurrent
  | AnnotationStack_Enable bool

text \<open>The notifications a \<open>CuptiTraceCollector\<close> receives.\<close>

datatype CollectorCall =
  SetTracingEndTimeNs u64
  | OnTracerCollectedCallbackData "CallbackAnnotationsAndEvents list" bool
  | OnTracerCachedActivityBuffers "(u64 \<times> nat) list"
  | OnEventsDropped string nat
  | Flush

datatype Action = Vendor VendorCall | Collector CollectorCall

text \<open>
  The environment of the tracer: the vendor library behind \<open>CuptiInterface\<close>, seen
  through the answers it gives. A query that writes through an out-parameter and whose
  status the tracer ignores is a function from the old value of the target to its new
  value. The status of an effectful call may depend on everything done so far (the
  trace). \<open>activity_records\<close> is the number of records \<open>ActivityGetNextRecord\<close> yields
  for a buffer and a valid size. \<open>read_hGraph\<close> reads \<open>hGraph\<close> from a
  \<open>cuGraphLaunch_params\<close> block. \<open>kBufferSizeInBytes\<close> is the constant of that name of
  \<open>cupti_tracer.h\<close> (not among the sources). \<open>SetPlainEventUponApiExit\<close> stands for the decoders of
  the kernel, copy, memset, allocation, free, host-registration and generic families:
  each fills the one event passed to it from the callback data and touches nothing else;
  the properties below hold whatever they write.
\<close>

record CuptiInterface =
  GetDeviceId :: "CUcontext \<Rightarrow> CUptiResult \<times> u32"
  GetGraphId :: "handle \<Rightarrow> u32 \<Rightarrow> u32"
  GetGraphExecId :: "handle \<Rightarrow> u32 \<Rightarrow> u32"
  GetGraphNodeId :: "handle \<Rightarrow> u64 \<Rightarrow> u64"
  GetResultString :: "CUptiResult \<Rightarrow> string"
  Disabled :: bool
  ActivityGetNumDroppedRecords :: "CUcontext \<Rightarrow> u32 \<Rightarrow> CUptiResult \<times> nat"
  activity_records :: "u64 \<Rightarrow> nat \<Rightarrow> nat"
  call_result :: "Action list \<Rightarrow> VendorCall \<Rightarrow> CUptiResult"
  kBufferSizeInBytes :: nat
  read_hGraph :: "u64 \<Rightarrow> handle"
  SetPlainEventUponApiExit ::
    "CUpti_CallbackId \<Rightarrow> CUpti_CallbackData \<Rightarrow> u32 \<Rightarrow> u32 \<Rightarrow> u64 \<Rightarrow> u64
       \<Rightarrow> CuptiTracerEvent \<Rightarrow> CuptiTracerEvent"

text \<open>The status \<open>RETURN_IF_CUPTI_ERROR\<close> returns for a vendor status that is not success.\<close>

definition cupti_error_status :: "CuptiInterface \<Rightarrow> CUptiResult \<Rightarrow> Status" where
  "cupti_error_status ci status =
     (if status = CUPTI_ERROR_INSUFFICIENT_PRIVILEGES
      then PermissionDeniedError ''CUPTI needs root access''
      else InternalError (''CUPTI call error: '' @ GetResultString ci status))"

text \<open>
  What the calling thread brings to a call: its id, the annotation stack's current
  annotation and scope-range-id sequence, and the answer of the vendor clock.
\<close>

record Caller =
  tid :: u32
  annotation_now :: string
  scope_range_ids_now :: "i64 list"
  cupti_timestamp :: "CUptiResult \<times> u64"

definition GetTimestamp :: "Caller \<Rightarrow> u64" where
  "GetTimestamp caller =
     (if fst (cupti_timestamp caller) = CUPTI_SUCCESS then snd (cupti_timestamp caller) else 0)"

subsection \<open>Thread-local state and the process\<close>

record GraphResourceCreationInfo =
  info_graph_id :: u32
  info_orig_graph_id :: u32
  node_id_map :: "(u64 \<times> u64) list"

text \<open>
  \<open>node_id_map\<close> is a hash map; its entries are kept as a list with one pair per key,
  and the order of the list stands for the iteration order of the table, which the source
  leaves open. \<open>map_assign\<close> is \<open>m[k] = v\<close>.
\<close>

fun map_assign :: "(u64 \<times> u64) list \<Rightarrow> u64 \<Rightarrow> u64 \<Rightarrow> (u64 \<times> u64) list" where
  "map_assign [] k v = [(k, v)]"
| "map_assign ((k', v') # m) k v =
     (if k' = k then (k, v) # m else (k', v') # map_assign m k v)"

record ThreadLocal =
  internalCuCall :: int
  per_thread_graph_info :: GraphResourceCreationInfo
  annotations_and_events :: CallbackAnnotationsAndEvents

definition initial_thread_local :: ThreadLocal where
  "initial_thread_local =
     \<lparr>internalCuCall = 0,
      per_thread_graph_info = \<lparr>info_graph_id = 0, info_orig_graph_id = 0, node_id_map = []\<rparr>,
      annotations_and_events = empty_annotations_and_events\<rparr>"

text \<open>
  The process: the tracer singleton, the thread-local objects by thread id, the threads
  whose buffer is registered with \<open>PerThread\<close>, and the trace of vendor calls and collector
  notifications so far.

  Modelled from the spec: the registry of \<open>tsl::profiler::PerThread\<close> (not among the
  sources): a thread registers its instance on first use; \<open>StartRecording\<close> and
  \<open>StopRecording\<close> hand out all registered instances, and \<open>StopRecording\<close> retires the
  registrations.
\<close>

record Process =
  tracer :: CuptiTracer
  thread_locals :: "u32 \<Rightarrow> ThreadLocal"
  registered :: "u32 list"
  trace :: "Action list"

definition PerThread_Get :: "Process \<Rightarrow> u32 \<Rightarrow> Process" where
  "PerThread_Get p t =
     (if t \<in> set (registered p) then p else p\<lparr>registered := registered p @ [t]\<rparr>)"

definition set_buffer :: "Process \<Rightarrow> u32 \<Rightarrow> CallbackAnnotationsAndEvents \<Rightarrow> Process" where
  "set_buffer p t g =
     p\<lparr>thread_locals := (thread_locals p)(t := (thread_locals p t)\<lparr>annotations_and_events := g\<rparr>)\<rparr>"

subsection \<open>CUDA-graph events\<close>

definition kTimeIncrementNs :: u64 where
  "kTimeIncrementNs = 1"

text \<open>
  The loop of \<open>SetCudaGraphEventUponApiExit\<close> over \<open>node_id_map\<close>: one
  \<open>CudaGraphNodeMap\<close> event per entry, pushed at once. \<open>current_start_time\<close> is a variable
  of the enclosing block that the loop body reads and does not assign.
\<close>

fun push_node_map_events ::
  "CuptiTracer \<Rightarrow> CuptiTracerEvent \<Rightarrow> u32 \<Rightarrow> CUpti_CallbackId \<Rightarrow> CUpti_CallbackData
     \<Rightarrow> u32 \<Rightarrow> GraphResourceCreationInfo \<Rightarrow> u64 \<Rightarrow> (u64 \<times> u64) list
     \<Rightarrow> CallbackAnnotationsAndEvents \<Rightarrow> CallbackAnnotationsAndEvents" where
  "push_node_map_events tr event dev cb cbdata thread graph_id_info current_start_time [] g = g"
| "push_node_map_events tr event dev cb cbdata thread graph_id_info current_start_time
     ((node_id, orig_node_id) # entries) g =
     (let current_event = event
            \<lparr>type := CudaGraphNodeMap,
             source := DriverCallback,
             name := ''CudaGraphNodeMap: '' @ functionName cbdata,
             start_time_ns := current_start_time,
             end_time_ns := current_start_time + kTimeIncrementNs,
             thread_id := thread,
             device_id := dev,
             context_id := contextUid cbdata,
             correlation_id := correlationId cbdata,
             graph_id := info_graph_id graph_id_info,
             graph_node_id := node_id,
             cuda_graph_info :=
               \<lparr>cbid = Some cb, orig_graph_id = info_orig_graph_id graph_id_info,
                orig_graph_node_id = orig_node_id\<rparr>\<rparr>
      in push_node_map_events tr event dev cb cbdata thread graph_id_info current_start_time
           entries (Push tr g current_event))"

text \<open>
  \<open>SetCudaGraphEventUponApiExit\<close> (cuGraphInstantiate*, cuGraphLaunch*, cuGraphCreate,
  cuGraphClone). It fills \<open>event\<close>, and changes the thread's graph info and buffer.
\<close>

definition SetCudaGraphEventUponApiExit ::
  "CuptiInterface \<Rightarrow> CuptiTracerEvent \<Rightarrow> u32 \<Rightarrow> CUpti_CallbackId \<Rightarrow> CUpti_CallbackData
     \<Rightarrow> u64 \<Rightarrow> u64 \<Rightarrow> u32 \<Rightarrow> ThreadLocal \<Rightarrow> CuptiTracer \<Rightarrow> CuptiTracerEvent \<times> ThreadLocal"
  where
  "SetCudaGraphEventUponApiExit ci event dev cb cbdata start_time end_time thread tlocal tr =
     (let info0 = per_thread_graph_info tlocal;
          info1 =
            (if cb = cuGraphLaunch \<or> cb = cuGraphLaunch_ptsz
             then info0
                    \<lparr>info_graph_id :=
                       GetGraphExecId ci (read_hGraph ci (functionParams cbdata))
                         (info_graph_id info0),
                     info_orig_graph_id := 0\<rparr>
             else info0);
          clone = (cb = cuGraphClone \<or> cb = cuGraphInstantiateWithFlags);
          g = (if clone
               then push_node_map_events tr event dev cb cbdata thread info1 start_time
                      (node_id_map info1) (annotations_and_events tlocal)
               else annotations_and_events tlocal);
          info2 = (if clone then info1\<lparr>node_id_map := []\<rparr> else info1);
          event' = event
            \<lparr>type := CudaGraph,
             source := DriverCallback,
             name := functionName cbdata,
             start_time_ns := start_time,
             end_time_ns := end_time,
             thread_id := thread,
             device_id := dev,
             context_id := contextUid cbdata,
             correlation_id := correlationId cbdata,
             graph_id := info_graph_id info2,
             cuda_graph_info :=
               (cuda_graph_info event)
                 \<lparr>cbid := Some cb, orig_graph_id := info_orig_graph_id info2\<rparr>\<rparr>
      in (event', tlocal\<lparr>per_thread_graph_info := info2, annotations_and_events := g\<rparr>))"

text \<open>
  \<open>SetCudaGraphNodeEventUponApiExit\<close> (all cuGraphAdd*). It reads
  \<open>node_id_map.begin()\<close> without a test; on an empty map that is the end iterator.
\<close>

definition SetCudaGraphNodeEventUponApiExit ::
  "CuptiTracerEvent \<Rightarrow> u32 \<Rightarrow> CUpti_CallbackId \<Rightarrow> CUpti_CallbackData \<Rightarrow> u64 \<Rightarrow> u64
     \<Rightarrow> u32 \<Rightarrow> ThreadLocal \<Rightarrow> error + CuptiTracerEvent \<times> ThreadLocal" where
  "SetCudaGraphNodeEventUponApiExit event dev cb cbdata start_time end_time thread tlocal =
     (let graph_id_info = per_thread_graph_info tlocal
      in case node_id_map graph_id_info of
           [] \<Rightarrow> Inl EmptyMapBeginDereference
         | (first_node_id, first_orig_node_id) # entries \<Rightarrow>
             Inr (event
                    \<lparr>type := CudaGraph,
                     source := DriverCallback,
                     name := functionName cbdata,
                     start_time_ns := start_time,
                     end_time_ns := end_time,
                     thread_id := thread,
                     device_id := dev,
                     context_id := contextUid cbdata,
                     correlation_id := correlationId cbdata,
                     graph_id := info_graph_id graph_id_info,
                     graph_node_id := first_node_id,
                     cuda_graph_info :=
                       \<lparr>cbid = Some cb, orig_graph_id = info_orig_graph_id graph_id_info,
                        orig_graph_node_id = first_orig_node_id\<rparr>\<rparr>,
                  tlocal\<lparr>per_thread_graph_info := graph_id_info\<lparr>node_id_map := []\<rparr>\<rparr>))"

text \<open>The case labels of \<open>SetCallbackEventUponApiExit\<close> (CUDA 11.7 or later).\<close>

fun is_cuda_graph_cbid :: "CUpti_CallbackId \<Rightarrow> bool" where
  "is_cuda_graph_cbid cuGraphCreate = True"
| "is_cuda_graph_cbid cuGraphInstantiate = True"
| "is_cuda_graph_cbid cuGraphLaunch = True"
| "is_cuda_graph_cbid cuGraphLaunch_ptsz = True"
| "is_cuda_graph_cbid cuGraphClone = True"
| "is_cuda_graph_cbid cuGraphInstantiate_v2 = True"
| "is_cuda_graph_cbid cuGraphInstantiateWithFlags = True"
| "is_cuda_graph_cbid cuGraphInstantiateWithParams = True"
| "is_cuda_graph_cbid cuGraphInstantiateWithParams_ptsz = True"
| "is_cuda_graph_cbid _ = False"

fun is_cuda_graph_node_cbid :: "CUpti_CallbackId \<Rightarrow> bool" where
  "is_cuda_graph_node_cbid cuGraphAddKernelNode = True"
| "is_cuda_graph_node_cbid cuGraphAddKernelNode_v2 = True"
| "is_cuda_graph_node_cbid cuGraphAddMemcpyNode = True"
| "is_cuda_graph_node_cbid cuGraphAddMemsetNode = True"
| "is_cuda_graph_node_cbid cuGraphAddChildGraphNode = True"
| "is_cuda_graph_node_cbid cuGraphAddEmptyNode = True"
| "is_cuda_graph_node_cbid cuGraphAddHostNode = True"
| "is_cuda_graph_node_cbid cuGraphAddNode = True"
| "is_cuda_graph_node_cbid cuGraphAddNode_v2 = True"
| "is_cuda_graph_node_cbid cuGraphAddEventRecordNode = True"
| "is_cuda_graph_node_cbid cuGraphAddEventWaitNode = True"
| "is_cuda_graph_node_cbid cuGraphAddExternalSemaphoresSignalNode = True"
| "is_cuda_graph_node_cbid cuGraphAddExternalSemaphoresWaitNode = True"
| "is_cuda_graph_node_cbid cuGraphAddMemAllocNode = True"
| "is_cuda_graph_node_cbid cuGraphAddMemFreeNode = True"
| "is_cuda_graph_node_cbid cuGraphAddBatchMemOpNode = True"
| "is_cuda_graph_node_cbid _ = False"

definition SetCallbackEventUponApiExit ::
  "CuptiInterface \<Rightarrow> CuptiTracerEvent \<Rightarrow> u32 \<Rightarrow> CUpti_CallbackId \<Rightarrow> CUpti_CallbackData
     \<Rightarrow> u64 \<Rightarrow> u64 \<Rightarrow> u32 \<Rightarrow> ThreadLocal \<Rightarrow> CuptiTracer
     \<Rightarrow> error + CuptiTracerEvent \<times> ThreadLocal" where
  "SetCallbackEventUponApiExit ci event dev cb cbdata start_tsc end_tsc thread tlocal tr =
     (if is_cuda_graph_cbid cb
      then Inr (SetCudaGraphEventUponApiExit ci event dev cb cbdata start_tsc end_tsc thread
                  tlocal tr)
      else if is_cuda_graph_node_cbid cb
      then SetCudaGraphNodeEventUponApiExit event dev cb cbdata start_tsc end_tsc thread tlocal
      else Inr (SetPlainEventUponApiExit ci cb cbdata dev thread start_tsc end_tsc event, tlocal))"

subsection \<open>Driver-API callbacks\<close>

text \<open>
  Modelled from the spec: \<open>IncCallbackEventCount\<close> of \<open>cupti_tracer.h\<close> (not among the
  sources) counts one more callback event.
\<close>

definition IncCallbackEventCount :: "CuptiTracer \<Rightarrow> CuptiTracer" where
  "IncCallbackEventCount tr = tr\<lparr>num_callback_events := num_callback_events tr + 1\<rparr>"

definition AddDriverApiCallbackEvent ::
  "CuptiInterface \<Rightarrow> Process \<Rightarrow> Caller \<Rightarrow> u32 \<Rightarrow> u64 \<Rightarrow> u64 \<Rightarrow> CUpti_CallbackId
     \<Rightarrow> CUpti_CallbackData \<Rightarrow> error + Status \<times> Process" where
  "AddDriverApiCallbackEvent ci p0 caller dev start_tsc end_tsc cb cbdata =
     (let annotation = annotation_now caller;
          nvtx_range = [];
          p = PerThread_Get p0 (tid caller);
          tlocal = thread_locals p (tid caller)
      in if TooManyCallbackEvents (tracer p)
         then Inr (OkStatus,
                   set_buffer p (tid caller) (IncNumDroppedEvents (annotations_and_events tlocal)))
         else
           (let tr = IncCallbackEventCount (tracer p);
                range_ids = scope_range_ids_now caller;
                tlocal1 = tlocal\<lparr>annotations_and_events :=
                          AddScopeRangeIdSequence (annotations_and_events tlocal) range_ids\<rparr>;
                event = empty_event
                  \<lparr>correlation_id := correlationId cbdata,
                   annotation := annotation,
                   nvtx_range := nvtx_range,
                   scope_range_id := (if range_ids = [] then 0 else last range_ids)\<rparr>
            in case SetCallbackEventUponApiExit ci event dev cb cbdata start_tsc end_tsc
                      (tid caller) tlocal1 tr of
                 Inl e \<Rightarrow> Inl e
               | Inr (event', tlocal2) \<Rightarrow>
                   Inr (OkStatus,
                        p\<lparr>tracer := tr,
                          thread_locals := (thread_locals p)
                            (tid caller := tlocal2\<lparr>annotations_and_events :=
                               Push tr (annotations_and_events tlocal2) event'\<rparr>)\<rparr>)))"

text \<open>\<open>CuptiDriverApiHookWithActivityApi\<close>.\<close>

definition TrackContext ::
  "CuptiDriverApiHook \<Rightarrow> CUpti_CallbackId \<Rightarrow> CUcontext \<Rightarrow> CuptiDriverApiHook" where
  "TrackContext h cb ctx =
     (if \<not> sync_devices_before_stop (hook_option h) then h
      else if ctx = 0 then h
      else if cb = cuCtxDestroy_v2 \<or> cb = cuCtxDestroy
      then h\<lparr>contexts := removeAll ctx (contexts h)\<rparr>
      else if ctx \<in> set (contexts h) then h
      else h\<lparr>contexts := contexts h @ [ctx]\<rparr>)"

text \<open>\<open>OnDriverApiEnter\<close> returns the value it stores in the correlation-data slot.\<close>

definition OnDriverApiEnter :: "CuptiDriverApiHook \<Rightarrow> Caller \<Rightarrow> Status \<times> u64" where
  "OnDriverApiEnter h caller =
     (OkStatus,
      if required_callback_api_events (hook_option h) then GetTimestamp caller else 0)"

definition OnDriverApiExit ::
  "CuptiInterface \<Rightarrow> CuptiDriverApiHook \<Rightarrow> Process \<Rightarrow> Caller \<Rightarrow> u32 \<Rightarrow> CUpti_CallbackId
     \<Rightarrow> CUpti_CallbackData \<Rightarrow> error + Status \<times> Process" where
  "OnDriverApiExit ci h p caller dev cb cbdata =
     (let end_tsc = GetTimestamp caller;
          start_tsc = correlationData cbdata;
          h' = TrackContext h cb (cu_context cbdata);
          p' = p\<lparr>tracer := (tracer p)\<lparr>cupti_driver_api_hook := Some h'\<rparr>\<rparr>
      in AddDriverApiCallbackEvent ci p' caller dev start_tsc end_tsc cb cbdata)"

text \<open>Decimal digits, as \<open>absl::StrCat\<close> prints an unsigned number.\<close>

fun decimal :: "nat \<Rightarrow> string" where
  "decimal n =
     (if n < 10 then [char_of (48 + n)] else decimal (n div 10) @ [char_of (48 + n mod 10)])"

text \<open>
  \<open>HandleDriverApiCallback\<close>. The third component of the result is the content of the
  correlation-data slot afterwards. \<open>device_id >= num_gpus_\<close> compares a \<open>uint32_t\<close> with
  an \<open>int\<close>, so the count is converted to \<open>uint32_t\<close>.
\<close>

definition HandleDriverApiCallback ::
  "CuptiInterface \<Rightarrow> Process \<Rightarrow> Caller \<Rightarrow> CUpti_CallbackId \<Rightarrow> CUpti_CallbackData
     \<Rightarrow> error + Status \<times> Process \<times> u64" where
  "HandleDriverApiCallback ci p caller cb cbdata =
     (if internalCuCall (thread_locals p (tid caller)) \<noteq> 0
      then Inr (OkStatus, p, correlationData cbdata)
      else if cu_context cbdata = 0
      then Inr (InternalError ''cutpi callback without context'', p, correlationData cbdata)
      else
        (case GetDeviceId ci (cu_context cbdata) of
           (status, dev) \<Rightarrow>
             if status \<noteq> CUPTI_SUCCESS
             then Inr (cupti_error_status ci status, p, correlationData cbdata)
             else if dev \<ge> word_of_int (num_gpus (tracer p))
             then Inr (InternalError (''Invalid device id:'' @ decimal (unat dev)), p,
                       correlationData cbdata)
             else if callbackSite cbdata = CUPTI_API_ENTER
             then (case cupti_driver_api_hook (tracer p) of
                     None \<Rightarrow> Inl NullPointerDereference
                   | Some h \<Rightarrow>
                       (case OnDriverApiEnter h caller of
                          (st, slot) \<Rightarrow> Inr (st, p, slot)))
             else if callbackSite cbdata = CUPTI_API_EXIT
             then (case cupti_driver_api_hook (tracer p) of
                     None \<Rightarrow> Inl NullPointerDereference
                   | Some h \<Rightarrow>
                       (case OnDriverApiExit ci h p caller dev cb cbdata of
                          Inl e \<Rightarrow> Inl e
                        | Inr (st, p') \<Rightarrow> Inr (st, p', correlationData cbdata)))
             else Inr (OkStatus, p, correlationData cbdata)))"

text \<open>\<open>HandleResourceCallback\<close>: graph ids recorded per thread.\<close>

definition HandleResourceCallback ::
  "CuptiInterface \<Rightarrow> Process \<Rightarrow> Caller \<Rightarrow> CUpti_CallbackIdResource \<Rightarrow> CUpti_GraphData
     \<Rightarrow> Status \<times> Process" where
  "HandleResourceCallback ci p caller cb graph_data =
     (let tlocal = thread_locals p (tid caller);
          info = per_thread_graph_info tlocal;
          info' =
            (case cb of
               CUPTI_CBID_RESOURCE_GRAPH_CREATED \<Rightarrow>
                 info\<lparr>info_graph_id := GetGraphId ci (graph graph_data) (info_graph_id info),
                      info_orig_graph_id := 0\<rparr>
             | CUPTI_CBID_RESOURCE_GRAPH_CLONED \<Rightarrow>
                 info\<lparr>info_graph_id := GetGraphId ci (graph graph_data) (info_graph_id info),
                      info_orig_graph_id :=
                        GetGraphId ci (originalGraph graph_data) (info_orig_graph_id info)\<rparr>
             | CUPTI_CBID_RESOURCE_GRAPHEXEC_CREATED \<Rightarrow>
                 info\<lparr>info_graph_id :=
                        GetGraphExecId ci (graphExec graph_data) (info_graph_id info),
                      info_orig_graph_id :=
                        GetGraphId ci (graph graph_data) (info_orig_graph_id info)\<rparr>
             | CUPTI_CBID_RESOURCE_GRAPHNODE_CREATED \<Rightarrow>
                 info\<lparr>node_id_map :=
                        map_assign (node_id_map info) (GetGraphNodeId ci (node graph_data) 0) 0\<rparr>
             | CUPTI_CBID_RESOURCE_GRAPHNODE_CLONED \<Rightarrow>
                 info\<lparr>node_id_map :=
                        map_assign (node_id_map info) (GetGraphNodeId ci (node graph_data) 0)
                          (GetGraphNodeId ci (originalNode graph_data) 0)\<rparr>
             | OtherResourceCbid n \<Rightarrow> info)
      in (OkStatus,
          p\<lparr>thread_locals := (thread_locals p)
               (tid caller := tlocal\<lparr>per_thread_graph_info := info'\<rparr>)\<rparr>))"

datatype Callback =
  DriverApiCallback CUpti_CallbackId CUpti_CallbackData
  | ResourceCallback CUpti_CallbackIdResource CUpti_GraphData
  | OtherDomainCallback

definition HandleCallback ::
  "CuptiInterface \<Rightarrow> Process \<Rightarrow> Caller \<Rightarrow> Callback \<Rightarrow> error + Status \<times> Process" where
  "HandleCallback ci p caller c =
     (if \<not> api_tracing_enabled (tracer p) then Inr (OkStatus, p)
      else if cupti_driver_api_hook (tracer p) = None then Inr (OkStatus, p)
      else case c of
             DriverApiCallback cb cbdata \<Rightarrow>
               (case HandleDriverApiCallback ci p caller cb cbdata of
                  Inl e \<Rightarrow> Inl e
                | Inr (st, p', slot) \<Rightarrow> Inr (st, p'))
           | ResourceCallback cb graph_data \<Rightarrow>
               Inr (HandleResourceCallback ci p caller cb graph_data)
           | OtherDomainCallback \<Rightarrow> Inr (OkStatus, p))"

subsection \<open>Sequencing\<close>

definition bind_error :: "error + 'a \<Rightarrow> ('a \<Rightarrow> error + 'b) \<Rightarrow> error + 'b" where
  "bind_error r f = (case r of Inl e \<Rightarrow> Inl e | Inr x \<Rightarrow> f x)"

text \<open>A call into the vendor library: its status, and the call recorded in the trace.\<close>

definition vendor :: "CuptiInterface \<Rightarrow> Process \<Rightarrow> VendorCall \<Rightarrow> CUptiResult \<times> Process" where
  "vendor ci p call = (call_result ci (trace p) call, p\<lparr>trace := trace p @ [Vendor call]\<rparr>)"

text \<open>A call whose status the tracer does not look at (or only logs).\<close>

definition vendor_ignored :: "CuptiInterface \<Rightarrow> Process \<Rightarrow> VendorCall \<Rightarrow> Process" where
  "vendor_ignored ci p call = snd (vendor ci p call)"

text \<open>\<open>RETURN_IF_CUPTI_ERROR(call)\<close>: the status to return, if any, and the process.\<close>

definition checked :: "CuptiInterface \<Rightarrow> Process \<Rightarrow> VendorCall \<Rightarrow> Status \<times> Process" where
  "checked ci p call =
     (case vendor ci p call of
        (r, p') \<Rightarrow> (if r \<noteq> CUPTI_SUCCESS then cupti_error_status ci r else OkStatus, p'))"

definition notify :: "Process \<Rightarrow> CollectorCall \<Rightarrow> Process" where
  "notify p call = p\<lparr>trace := trace p @ [Collector call]\<rparr>"

text \<open>A loop of \<open>RETURN_IF_CUPTI_ERROR\<close> calls: it returns at the first failure.\<close>

fun checked_all :: "CuptiInterface \<Rightarrow> Process \<Rightarrow> VendorCall list \<Rightarrow> Status \<times> Process" where
  "checked_all ci p [] = (OkStatus, p)"
| "checked_all ci p (call # calls) =
     (case checked ci p call of
        (st, p') \<Rightarrow> if st \<noteq> OkStatus then (st, p') else checked_all ci p' calls)"

subsection \<open>The activity buffer manager\<close>

text \<open>
  Modelled from the spec: the operations of \<open>CuptiActivityBufferManager\<close> (not among the
  sources): caching a filled buffer for later draining, handing over all cached buffers
  and clearing the cache, and returning a buffer to the pool.
\<close>

definition CacheCuptiFilledActivityBuffer ::
  "CuptiActivityBufferManager \<Rightarrow> u64 \<Rightarrow> nat \<Rightarrow> CuptiActivityBufferManager" where
  "CacheCuptiFilledActivityBuffer m buffer valid_size =
     m\<lparr>cached_buffers := cached_buffers m @ [(buffer, valid_size)]\<rparr>"

definition PopCachedBuffers ::
  "CuptiActivityBufferManager \<Rightarrow> (u64 \<times> nat) list \<times> CuptiActivityBufferManager" where
  "PopCachedBuffers m = (cached_buffers m, m\<lparr>cached_buffers := []\<rparr>)"

definition ReclaimBuffer :: "CuptiActivityBufferManager \<Rightarrow> u64 \<Rightarrow> CuptiActivityBufferManager"
  where
  "ReclaimBuffer m buffer = m\<lparr>pool := pool m @ [buffer]\<rparr>"

subsection \<open>Life cycle\<close>

text \<open>
  \<open>GatherCallbackAnnotationsAndEvents\<close>: every registered thread's buffer is consumed, in
  registration order.
\<close>

fun consume_all ::
  "(u32 \<Rightarrow> ThreadLocal) \<Rightarrow> u32 list \<Rightarrow> CallbackAnnotationsAndEvents list \<times> (u32 \<Rightarrow> ThreadLocal)"
  where
  "consume_all tls [] = ([], tls)"
| "consume_all tls (t # ts) =
     (case Consume (annotations_and_events (tls t)) of
        (grabbed, left) \<Rightarrow>
          (case consume_all (tls(t := (tls t)\<lparr>annotations_and_events := left\<rparr>)) ts of
             (result, tls') \<Rightarrow> (grabbed # result, tls')))"

definition GatherCallbackAnnotationsAndEvents ::
  "Process \<Rightarrow> bool \<Rightarrow> CallbackAnnotationsAndEvents list \<times> Process" where
  "GatherCallbackAnnotationsAndEvents p stop_recording =
     (case consume_all (thread_locals p) (registered p) of
        (result, tls') \<Rightarrow>
          (result,
           p\<lparr>thread_locals := tls',
             registered := (if stop_recording then [] else registered p)\<rparr>))"

fun clear_all :: "(u32 \<Rightarrow> ThreadLocal) \<Rightarrow> u32 list \<Rightarrow> (u32 \<Rightarrow> ThreadLocal)" where
  "clear_all tls [] = tls"
| "clear_all tls (t # ts) =
     clear_all (tls(t := (tls t)\<lparr>annotations_and_events :=
                                   Clear (annotations_and_events (tls t))\<rparr>)) ts"

definition PrepareCallbackStart :: "Process \<Rightarrow> Process" where
  "PrepareCallbackStart p =
     p\<lparr>thread_locals := clear_all (thread_locals p) (registered p),
       tracer := (tracer p)\<lparr>num_callback_events := 0\<rparr>\<rparr>"

definition PrepareActivityStart :: "CuptiInterface \<Rightarrow> Process \<Rightarrow> Process" where
  "PrepareActivityStart ci p =
     p\<lparr>tracer := (tracer p)
         \<lparr>activity_buffers :=
            Some \<lparr>buffer_size_in_bytes = kBufferSizeInBytes ci, pool = [], cached_buffers = []\<rparr>,
          cupti_dropped_activity_event_count := 0,
          num_activity_events_in_cached_buffer := 0,
          num_activity_events_in_dropped_buffer := 0\<rparr>\<rparr>"

text \<open>
  Modelled from the spec: \<open>IsCallbackApiEventsRequired\<close> of \<open>cupti_tracer.h\<close> (not among
  the sources) is the callback-required toggle of the options, and false without options.
\<close>

definition IsCallbackApiEventsRequired :: "CuptiTracer \<Rightarrow> bool" where
  "IsCallbackApiEventsRequired tr =
     (case option tr of None \<Rightarrow> False | Some opt \<Rightarrow> required_callback_api_events opt)"

definition GetCudaGraphTracingResourceCbids :: "CUpti_CallbackIdResource list" where
  "GetCudaGraphTracingResourceCbids =
     [CUPTI_CBID_RESOURCE_GRAPH_CREATED, CUPTI_CBID_RESOURCE_GRAPH_CLONED,
      CUPTI_CBID_RESOURCE_GRAPHEXEC_CREATED, CUPTI_CBID_RESOURCE_GRAPHNODE_CREATED,
      CUPTI_CBID_RESOURCE_GRAPHNODE_CLONED]"

text \<open>The calls that switch the selected callbacks on or off, in the order of the source.\<close>

definition resource_callback_calls :: "bool \<Rightarrow> VendorCall list" where
  "resource_callback_calls enable =
     map (\<lambda>cb. EnableCallback enable CUPTI_CB_DOMAIN_RESOURCE (Inl cb))
       GetCudaGraphTracingResourceCbids"

definition driver_callback_calls :: "bool \<Rightarrow> CuptiTracerOptions \<Rightarrow> VendorCall list" where
  "driver_callback_calls enable opt =
     (if cbids_selected opt \<noteq> []
      then map (\<lambda>cb. EnableCallback enable CUPTI_CB_DOMAIN_DRIVER_API (Inr cb))
             (cbids_selected opt)
      else [EnableDomain enable CUPTI_CB_DOMAIN_DRIVER_API])"

definition set_api_tracing_enabled :: "Process \<Rightarrow> bool \<Rightarrow> Process" where
  "set_api_tracing_enabled p b = p\<lparr>tracer := (tracer p)\<lparr>api_tracing_enabled := b\<rparr>\<rparr>"

definition set_activity_tracing_enabled :: "Process \<Rightarrow> bool \<Rightarrow> Process" where
  "set_activity_tracing_enabled p b = p\<lparr>tracer := (tracer p)\<lparr>activity_tracing_enabled := b\<rparr>\<rparr>"

definition set_pm_sampling_enabled :: "Process \<Rightarrow> bool \<Rightarrow> Process" where
  "set_pm_sampling_enabled p b = p\<lparr>tracer := (tracer p)\<lparr>pm_sampling_enabled := b\<rparr>\<rparr>"

definition EnableApiTracing :: "CuptiInterface \<Rightarrow> Process \<Rightarrow> error + Status \<times> Process" where
  "EnableApiTracing ci p =
     (if api_tracing_enabled (tracer p) then Inr (OkStatus, p)
      else
        (case checked ci (PrepareCallbackStart p) Subscribe of
           (st1, p1) \<Rightarrow>
             if st1 \<noteq> OkStatus then Inr (st1, p1)
             else
               (case checked_all ci (set_api_tracing_enabled p1 True)
                       (resource_callback_calls True) of
                  (st2, p2) \<Rightarrow>
                    if st2 \<noteq> OkStatus then Inr (st2, p2)
                    else
                      (case option (tracer p2) of
                         None \<Rightarrow> Inl EmptyOptionalDereference
                       | Some opt \<Rightarrow>
                           Inr (checked_all ci p2 (driver_callback_calls True opt))))))"

definition DisableApiTracing :: "CuptiInterface \<Rightarrow> Process \<Rightarrow> error + Status \<times> Process" where
  "DisableApiTracing ci p =
     (if \<not> api_tracing_enabled (tracer p) then Inr (OkStatus, p)
      else
        (case checked_all ci (set_api_tracing_enabled p False) (resource_callback_calls False)
         of (st1, p1) \<Rightarrow>
           if st1 \<noteq> OkStatus then Inr (st1, p1)
           else
             (case option (tracer p1) of
                None \<Rightarrow> Inl EmptyOptionalDereference
              | Some opt \<Rightarrow>
                  (case checked_all ci p1 (driver_callback_calls False opt) of
                     (st2, p2) \<Rightarrow>
                       if st2 \<noteq> OkStatus then Inr (st2, p2)
                       else Inr (checked ci p2 Unsubscribe)))))"

definition ConfigureActivityUnifiedMemoryCounter ::
  "CuptiInterface \<Rightarrow> Process \<Rightarrow> bool \<Rightarrow> Process" where
  "ConfigureActivityUnifiedMemoryCounter ci p enable =
     vendor_ignored ci p (ActivityConfigureUnifiedMemoryCounter enable)"

text \<open>The loop of \<open>EnableActivityTracing\<close> over the selected activities.\<close>

fun enable_activities ::
  "CuptiInterface \<Rightarrow> Process \<Rightarrow> CUpti_ActivityKind list \<Rightarrow> Status \<times> Process" where
  "enable_activities ci p [] = (OkStatus, p)"
| "enable_activities ci p (activity # activities) =
     (let p1 = (if activity = CUPTI_ACTIVITY_KIND_UNIFIED_MEMORY_COUNTER
                then ConfigureActivityUnifiedMemoryCounter ci p True else p)
      in case checked ci p1 (ActivityEnable activity) of
           (st, p2) \<Rightarrow> if st \<noteq> OkStatus then (st, p2) else enable_activities ci p2 activities)"

text \<open>
  The loop of \<open>DisableActivityTracing\<close>: the concurrent-kernel activity is skipped
  (\<open>continue\<close>) after the unified-memory test.
\<close>

fun disable_activities ::
  "CuptiInterface \<Rightarrow> Process \<Rightarrow> CUpti_ActivityKind list \<Rightarrow> Status \<times> Process" where
  "disable_activities ci p [] = (OkStatus, p)"
| "disable_activities ci p (activity # activities) =
     (let p1 = (if activity = CUPTI_ACTIVITY_KIND_UNIFIED_MEMORY_COUNTER
                then ConfigureActivityUnifiedMemoryCounter ci p False else p)
      in if activity = CUPTI_ACTIVITY_KIND_CONCURRENT_KERNEL
         then disable_activities ci p1 activities
         else case checked ci p1 (ActivityDisable activity) of
                (st, p2) \<Rightarrow>
                  if st \<noteq> OkStatus then (st, p2) else disable_activities ci p2 activities)"

definition EnableActivityTracing :: "CuptiInterface \<Rightarrow> Process \<Rightarrow> error + Status \<times> Process"
  where
  "EnableActivityTracing ci p =
     (if activity_tracing_enabled (tracer p) then Inr (OkStatus, p)
      else
        (let p0 = PrepareActivityStart ci p
         in case option (tracer p0) of
              None \<Rightarrow> Inl EmptyOptionalDereference
            | Some opt \<Rightarrow>
                if activities_selected opt \<noteq> []
                then
                  (let p1 = vendor_ignored ci p0 SetThreadIdType;
                       p2 = vendor_ignored ci p1 ActivityUsePerThreadBuffer
                   in case checked ci p2 ActivityRegisterCallbacks of
                        (st1, p3) \<Rightarrow>
                          if st1 \<noteq> OkStatus then Inr (st1, p3)
                          else
                            (case enable_activities ci p3 (activities_selected opt) of
                               (st2, p4) \<Rightarrow>
                                 if st2 \<noteq> OkStatus then Inr (st2, p4)
                                 else Inr (OkStatus, set_activity_tracing_enabled p4 True)))
                else Inr (OkStatus, set_activity_tracing_enabled p0 True)))"

definition DisableActivityTracing :: "CuptiInterface \<Rightarrow> Process \<Rightarrow> error + Status \<times> Process"
  where
  "DisableActivityTracing ci p =
     (if activity_tracing_enabled (tracer p)
      then
        (case option (tracer p) of
           None \<Rightarrow> Inl EmptyOptionalDereference
         | Some opt \<Rightarrow>
             (case disable_activities ci p (activities_selected opt) of
                (st1, p1) \<Rightarrow>
                  if st1 \<noteq> OkStatus then Inr (st1, p1)
                  else
                    (case checked ci
                            (p1\<lparr>tracer := (tracer p1)
                                  \<lparr>option := Some (opt\<lparr>activities_selected := []\<rparr>)\<rparr>\<rparr>)
                            (ActivityFlushAll True) of
                       (st2, p2) \<Rightarrow>
                         if st2 \<noteq> OkStatus then Inr (st2, p2)
                         else Inr (OkStatus, set_activity_tracing_enabled p2 False))))
      else Inr (OkStatus, set_activity_tracing_enabled p False))"

definition Finalize :: "CuptiInterface \<Rightarrow> Process \<Rightarrow> error + Status \<times> Process" where
  "Finalize ci p =
     (case option (tracer p) of
        None \<Rightarrow> Inl EmptyOptionalDereference
      | Some opt \<Rightarrow>
          if cupti_finalize opt then Inr (checked ci p CuptiFinalize) else Inr (OkStatus, p))"

text \<open>
  \<open>CuptiApiTracingDisabler\<close>: its constructor adds one to the calling thread's
  \<open>internalCuCall\<close> and its destructor takes one away.
\<close>

definition add_internalCuCall :: "Process \<Rightarrow> u32 \<Rightarrow> int \<Rightarrow> Process" where
  "add_internalCuCall p t d =
     p\<lparr>thread_locals := (thread_locals p)
         (t := (thread_locals p t)
                 \<lparr>internalCuCall := internalCuCall (thread_locals p t) + d\<rparr>)\<rparr>"

text \<open>
  \<open>SyncAndFlush\<close> of the hook, run by thread \<open>t\<close>. The calls it makes are the tracer's
  own: a disabler lives from before the first of them to after the last.
\<close>

fun sync_contexts :: "CuptiInterface \<Rightarrow> Process \<Rightarrow> CUcontext list \<Rightarrow> Process" where
  "sync_contexts ci p [] = p"
| "sync_contexts ci p (ctx # ctxs) =
     sync_contexts ci
       (vendor_ignored ci
          (vendor_ignored ci (vendor_ignored ci p (cuCtxPushCurrent ctx)) cuCtxSynchronize)
          cuCtxPopCurrent)
       ctxs"

definition SyncAndFlush ::
  "CuptiInterface \<Rightarrow> CuptiDriverApiHook \<Rightarrow> u32 \<Rightarrow> Process \<Rightarrow> Status \<times> Process" where
  "SyncAndFlush ci h t p =
     (if sync_devices_before_stop (hook_option h)
      then (OkStatus,
            add_internalCuCall (sync_contexts ci (add_internalCuCall p t 1) (contexts h)) t (- 1))
      else (OkStatus, p))"

definition Enable ::
  "CuptiInterface \<Rightarrow> Process \<Rightarrow> CuptiTracerOptions \<Rightarrow> CuptiTraceCollector
     \<Rightarrow> error + Status \<times> Process" where
  "Enable ci p0 opt0 c =
     (let opt = (if enable_nvtx_tracking opt0
                    \<and> CUPTI_ACTIVITY_KIND_MARKER \<notin> set (activities_selected opt0)
                 then opt0\<lparr>activities_selected :=
                             activities_selected opt0 @ [CUPTI_ACTIVITY_KIND_MARKER]\<rparr>
                 else opt0);
          p1 = p0\<lparr>tracer := (tracer p0)
                  \<lparr>option := Some opt, collector := Some c,
                   cupti_driver_api_hook := Some \<lparr>hook_option = opt, contexts = []\<rparr>\<rparr>\<rparr>
      in bind_error (EnableApiTracing ci p1) (\<lambda>(status, p2).
           (let p3 = p2\<lparr>tracer := (tracer p2)
                       \<lparr>need_root_access :=
                          (need_root_access (tracer p2)
                           \<or> (case status of PermissionDeniedError m \<Rightarrow> True | _ \<Rightarrow> False))\<rparr>\<rparr>
            in if status \<noteq> OkStatus then Inr (status, p3)
               else bind_error (EnableActivityTracing ci p3) (\<lambda>(ignored, p4).
                 (let p5 = vendor_ignored ci p4 (AnnotationStack_Enable True)
                  in case option (tracer p5) of
                       None \<Rightarrow> Inl EmptyOptionalDereference
                     | Some o5 \<Rightarrow>
                         if pm_sampler_enable o5
                         then
                           (case checked ci p5 CreatePmSampler of
                              (st6, p6) \<Rightarrow>
                                if st6 \<noteq> OkStatus then Inr (st6, p6)
                                else
                                  (case checked ci
                                          (p6\<lparr>tracer := (tracer p6)\<lparr>pm_sampler := Some ()\<rparr>\<rparr>)
                                          StartSampler of
                                     (st7, p7) \<Rightarrow>
                                       if st7 \<noteq> OkStatus then Inr (st7, p7)
                                       else Inr (status, set_pm_sampling_enabled p7 True)))
                         else Inr (status, p5))))))"

text \<open>The first block of \<open>Disable\<close>: the performance-counter sampler.\<close>

definition stop_pm_sampling :: "CuptiInterface \<Rightarrow> Process \<Rightarrow> error + Process" where
  "stop_pm_sampling ci p =
     (if pm_sampling_enabled (tracer p)
      then (case pm_sampler (tracer p) of
              None \<Rightarrow> Inl NullPointerDereference
            | Some s \<Rightarrow>
                Inr (set_pm_sampling_enabled
                       (vendor_ignored ci (vendor_ignored ci p StopSampler) Deinitialize)
                       False))
      else Inr p)"

text \<open>
  The end of \<open>Disable\<close>, from \<open>SetTracingEndTimeNs\<close> on: what the collector is told, and
  the release of collector, options and hook.
\<close>

definition deliver_and_release :: "CuptiInterface \<Rightarrow> Process \<Rightarrow> Caller \<Rightarrow> Process" where
  "deliver_and_release ci p caller =
     (let p1 = notify p (SetTracingEndTimeNs (GetTimestamp caller));
          p2 = (case GatherCallbackAnnotationsAndEvents p1 True of
                  (batches, q) \<Rightarrow>
                    notify q (OnTracerCollectedCallbackData batches
                                (IsCallbackApiEventsRequired (tracer q))));
          p3 = (case activity_buffers (tracer p2) of
                  None \<Rightarrow> p2
                | Some m \<Rightarrow>
                    (case PopCachedBuffers m of
                       (cached, m') \<Rightarrow>
                         notify (p2\<lparr>tracer := (tracer p2)\<lparr>activity_buffers := None\<rparr>\<rparr>)
                           (OnTracerCachedActivityBuffers cached)));
          p4 = (if cupti_dropped_activity_event_count (tracer p3) > 0
                then notify p3 (OnEventsDropped ''Activity Event dropped by Cupti Lib:''
                                  (cupti_dropped_activity_event_count (tracer p3)))
                else p3);
          p5 = (if num_activity_events_in_dropped_buffer (tracer p4) > 0
                then notify p4 (OnEventsDropped ''Activity Event dropped in dropped buffer:''
                                  (num_activity_events_in_dropped_buffer (tracer p4)))
                else p4);
          p6 = notify p5 Flush;
          p7 = p6\<lparr>tracer := (tracer p6)
                  \<lparr>collector := None, option := None, cupti_driver_api_hook := None\<rparr>\<rparr>
      in vendor_ignored ci p7 (AnnotationStack_Enable False))"

text \<open>
  \<open>Disable\<close>. The statuses of the steps are ignored (\<open>IgnoreError\<close>); \<open>collector_\<close> is
  first dereferenced for \<open>SetTracingEndTimeNs\<close>.
\<close>

definition Disable :: "CuptiInterface \<Rightarrow> Process \<Rightarrow> Caller \<Rightarrow> error + Process" where
  "Disable ci p caller =
     bind_error (stop_pm_sampling ci p) (\<lambda>p1.
     bind_error (DisableApiTracing ci p1) (\<lambda>(st2, p2).
     bind_error (DisableActivityTracing ci p2) (\<lambda>(st3, p3).
     bind_error (Finalize ci (vendor_ignored ci p3 CleanUp)) (\<lambda>(st4, p4).
       case cupti_driver_api_hook (tracer p4) of
         None \<Rightarrow> Inl NullPointerDereference
       | Some h \<Rightarrow>
           (case SyncAndFlush ci h (tid caller) p4 of
              (st5, p5) \<Rightarrow>
                (case collector (tracer p5) of
                   None \<Rightarrow> Inl NullPointerDereference
                 | Some c \<Rightarrow> Inr (deliver_and_release ci p5 caller)))))))"

definition FlushEventsToCollector :: "CuptiInterface \<Rightarrow> Process \<Rightarrow> error + Status \<times> Process"
  where
  "FlushEventsToCollector ci p =
     (if \<not> api_tracing_enabled (tracer p) \<and> \<not> activity_tracing_enabled (tracer p)
      then Inr (OkStatus, p)
      else
        bind_error
          (if activity_tracing_enabled (tracer p)
           then (case activity_buffers (tracer p) of
                   None \<Rightarrow> Inl NullPointerDereference
                 | Some m \<Rightarrow>
                     (case PopCachedBuffers m of
                        (cached, m') \<Rightarrow>
                          Inr (cached, p\<lparr>tracer := (tracer p)\<lparr>activity_buffers := Some m'\<rparr>\<rparr>)))
           else Inr ([], p))
          (\<lambda>(cached, p1).
             bind_error
               (if api_tracing_enabled (tracer p1)
                then (case collector (tracer p1) of
                        None \<Rightarrow> Inl NullPointerDereference
                      | Some c \<Rightarrow>
                          (case GatherCallbackAnnotationsAndEvents p1 False of
                             (batches, q) \<Rightarrow>
                               Inr (notify q (OnTracerCollectedCallbackData batches
                                                (IsCallbackApiEventsRequired (tracer q))))))
                else Inr p1)
               (\<lambda>p2.
                  case collector (tracer p2) of
                    None \<Rightarrow> Inl NullPointerDereference
                  | Some c \<Rightarrow> Inr (OkStatus, notify p2 (OnTracerCachedActivityBuffers cached)))))"

subsection \<open>Filled activity buffers\<close>

text \<open>
  The loop of \<open>CountCuptiActivityEvent\<close>: \<open>ActivityGetNextRecord\<close> succeeds once per
  record left in the buffer and fails after the last one.
\<close>

fun next_record_loop :: "nat \<Rightarrow> nat \<Rightarrow> nat" where
  "next_record_loop 0 total_event_count = total_event_count"
| "next_record_loop (Suc records_left) total_event_count =
     next_record_loop records_left (total_event_count + 1)"

definition CountCuptiActivityEvent :: "CuptiInterface \<Rightarrow> u64 \<Rightarrow> nat \<Rightarrow> nat" where
  "CountCuptiActivityEvent ci buffer valid_size =
     (if valid_size = 0 \<or> buffer = 0 then 0
      else next_record_loop (activity_records ci buffer valid_size) 0)"

text \<open>
  (\<open>valid_size\<close> is the parameter \<open>size\<close> of the source.)
  \<open>buffer_cleanup\<close> of \<open>ProcessActivityBuffer\<close> runs when the function returns: a buffer
  that was not cached goes back to the pool.
\<close>

definition buffer_cleanup :: "Status \<Rightarrow> Process \<Rightarrow> u64 \<Rightarrow> error + Status \<times> Process" where
  "buffer_cleanup st p buffer =
     (if buffer \<noteq> 0
      then (case activity_buffers (tracer p) of
              None \<Rightarrow> Inl NullPointerDereference
            | Some m \<Rightarrow>
                Inr (st, p\<lparr>tracer := (tracer p)\<lparr>activity_buffers := Some (ReclaimBuffer m buffer)\<rparr>\<rparr>))
      else Inr (st, p))"

definition ProcessActivityBuffer ::
  "CuptiInterface \<Rightarrow> Process \<Rightarrow> CUcontext \<Rightarrow> u32 \<Rightarrow> u64 \<Rightarrow> nat \<Rightarrow> error + Status \<times> Process"
  where
  "ProcessActivityBuffer ci p ctx stream_id buffer valid_size =
     (if valid_size = 0 \<or> buffer = 0 then buffer_cleanup OkStatus p buffer
      else if \<not> activity_tracing_enabled (tracer p) then buffer_cleanup OkStatus p buffer
      else if Disabled ci then buffer_cleanup (InternalError ''Disabled.'') p buffer
      else
        (let p1 = (case ActivityGetNumDroppedRecords ci ctx stream_id of
                     (r, dropped) \<Rightarrow>
                       if r = CUPTI_SUCCESS
                       then p\<lparr>tracer := (tracer p)
                               \<lparr>cupti_dropped_activity_event_count :=
                                  cupti_dropped_activity_event_count (tracer p) + dropped\<rparr>\<rparr>
                       else p);
             event_count_in_buffer = CountCuptiActivityEvent ci buffer valid_size
         in case collector (tracer p1) of
              None \<Rightarrow> Inl NullPointerDereference
            | Some c \<Rightarrow>
                (let max_activity_event_count = max_activity_api_events (GetOptions c)
                 in if max_activity_event_count > 0
                       \<and> num_activity_events_in_cached_buffer (tracer p1)
                           \<ge> max_activity_event_count
                    then buffer_cleanup OkStatus
                           (p1\<lparr>tracer := (tracer p1)
                                \<lparr>num_activity_events_in_dropped_buffer :=
                                   num_activity_events_in_dropped_buffer (tracer p1)
                                   + event_count_in_buffer\<rparr>\<rparr>)
                           buffer
                    else
                      (case activity_buffers (tracer p1) of
                         None \<Rightarrow> Inl NullPointerDereference
                       | Some m \<Rightarrow>
                           Inr (OkStatus,
                                p1\<lparr>tracer := (tracer p1)
                                     \<lparr>num_activity_events_in_cached_buffer :=
                                        num_activity_events_in_cached_buffer (tracer p1)
                                        + event_count_in_buffer,
                                      activity_buffers :=
                                        Some (CacheCuptiFilledActivityBuffer m buffer valid_size)\<rparr>\<rparr>)))))"

subsection \<open>The callback entry point and runs of calls\<close>

text \<open>\<open>ApiCallback\<close>, the function the vendor library calls: the status is ignored.\<close>

definition ApiCallback :: "CuptiInterface \<Rightarrow> Process \<Rightarrow> Caller \<Rightarrow> Callback \<Rightarrow> error + Process"
  where
  "ApiCallback ci p caller c =
     (case HandleCallback ci p caller c of Inl e \<Rightarrow> Inl e | Inr (st, p') \<Rightarrow> Inr p')"

text \<open>Callbacks arriving one after the other; a run ends where the program would crash.\<close>

fun ApiCallbacks :: "CuptiInterface \<Rightarrow> Process \<Rightarrow> (Caller \<times> Callback) list \<Rightarrow> error + Process"
  where
  "ApiCallbacks ci p [] = Inr p"
| "ApiCallbacks ci p ((caller, c) # cs) =
     (case ApiCallback ci p caller c of Inl e \<Rightarrow> Inl e | Inr p' \<Rightarrow> ApiCallbacks ci p' cs)"

text \<open>Driver-API exits reaching \<open>AddDriverApiCallbackEvent\<close> one after the other.\<close>

type_synonym DriverApiExit = "Caller \<times> u32 \<times> u64 \<times> u64 \<times> CUpti_CallbackId \<times> CUpti_CallbackData"

fun AddDriverApiCallbackEvents ::
  "CuptiInterface \<Rightarrow> Process \<Rightarrow> DriverApiExit list \<Rightarrow> error + Process" where
  "AddDriverApiCallbackEvents ci p [] = Inr p"
| "AddDriverApiCallbackEvents ci p ((caller, dev, start_tsc, end_tsc, cb, cbdata) # xs) =
     (case AddDriverApiCallbackEvent ci p caller dev start_tsc end_tsc cb cbdata of
        Inl e \<Rightarrow> Inl e
      | Inr (st, p') \<Rightarrow> AddDriverApiCallbackEvents ci p' xs)"

subsection \<open>Sessions\<close>

text \<open>
  What happens to the tracer of a process: the life-cycle calls of its owner, the
  callbacks of the vendor library and the filled activity buffers it hands back.
\<close>

datatype Operation =
  DoEnable CuptiTracerOptions CuptiTraceCollector
  | DoDisable Caller
  | DoFlushEventsToCollector
  | DoApiCallback Caller Callback
  | DoProcessActivityBuffer CUcontext u32 u64 nat

definition step :: "CuptiInterface \<Rightarrow> Process \<Rightarrow> Operation \<Rightarrow> error + Process" where
  "step ci p operation =
     (case operation of
        DoEnable opt c \<Rightarrow>
          (case Enable ci p opt c of Inl e \<Rightarrow> Inl e | Inr (st, p') \<Rightarrow> Inr p')
      | DoDisable caller \<Rightarrow> Disable ci p caller
      | DoFlushEventsToCollector \<Rightarrow>
          (case FlushEventsToCollector ci p of Inl e \<Rightarrow> Inl e | Inr (st, p') \<Rightarrow> Inr p')
      | DoApiCallback caller c \<Rightarrow> ApiCallback ci p caller c
      | DoProcessActivityBuffer ctx stream_id buffer valid_size \<Rightarrow>
          (case ProcessActivityBuffer ci p ctx stream_id buffer valid_size of
             Inl e \<Rightarrow> Inl e
           | Inr (st, p') \<Rightarrow> Inr p'))"

text \<open>A session is a run of operations; it ends where the program would crash.\<close>

fun session :: "CuptiInterface \<Rightarrow> Process \<Rightarrow> Operation list \<Rightarrow> error + Process" where
  "session ci p [] = Inr p"
| "session ci p (operation # operations) =
     (case step ci p operation of Inl e \<Rightarrow> Inl e | Inr p' \<Rightarrow> session ci p' operations)"

text \<open>
  The process at program start on a machine with \<open>n\<close> GPUs: the tracer as its constructor
  leaves it, and every thread-local object as initialised (\<open>internalCuCall = 0\<close>).
\<close>

definition fresh_process :: "int \<Rightarrow> Process" where
  "fresh_process n =
     \<lparr>tracer =
        \<lparr>num_gpus = n, option = None, collector = None, cupti_driver_api_hook = None,
         pm_sampler = None, activity_buffers = None, api_tracing_enabled = False,
         activity_tracing_enabled = False, pm_sampling_enabled = False,
         need_root_access = False, num_callback_events = 0,
         cupti_dropped_activity_event_count = 0, num_activity_events_in_cached_buffer = 0,
         num_activity_events_in_dropped_buffer = 0\<rparr>,
      thread_locals = (\<lambda>t. initial_thread_local), registered = [], trace = []\<rparr>"

subsection \<open>Observations\<close>

text \<open>For each thread, the number of the tracer's own calls it is inside of.\<close>

definition own_calls :: "Process \<Rightarrow> u32 \<Rightarrow> int" where
  "own_calls p = (\<lambda>t. internalCuCall (thread_locals p t))"

text \<open>The events in a thread's buffer.\<close>

definition thread_events :: "Process \<Rightarrow> u32 \<Rightarrow> CuptiTracerEvent list" where
  "thread_events p t = event_queue (annotations_and_events (thread_locals p t))"

text \<open>Kind and time window of an event.\<close>

definition timeline :: "CuptiTracerEvent \<Rightarrow> CuptiTracerEventType \<times> u64 \<times> u64" where
  "timeline e = (type e, start_time_ns e, end_time_ns e)"

text \<open>Kinds and time windows of the events in a thread's buffer after a run.\<close>

definition timelines ::
  "error + Process \<Rightarrow> u32 \<Rightarrow> (CuptiTracerEventType \<times> u64 \<times> u64) list option" where
  "timelines r t = (case r of Inl e \<Rightarrow> None | Inr p \<Rightarrow> Some (map timeline (thread_events p t)))"

text \<open>The annotations of the events in a thread's buffer after a run.\<close>

definition stored_annotations :: "error + Process \<Rightarrow> u32 \<Rightarrow> string list option" where
  "stored_annotations r t =
     (case r of Inl e \<Rightarrow> None | Inr p \<Rightarrow> Some (map annotation (thread_events p t)))"

text \<open>The process a run ended in; a crashed run has none.\<close>

definition outcome :: "error + Process \<Rightarrow> Process option" where
  "outcome r = (case r of Inl e \<Rightarrow> None | Inr p \<Rightarrow> Some p)"










text \<open>The activity events in the cached buffers that were not delivered yet.\<close>

definition undelivered_activity_events :: "CuptiInterface \<Rightarrow> CuptiTracer \<Rightarrow> nat" where
  "undelivered_activity_events ci tr =
     (case activity_buffers tr of
        None \<Rightarrow> 0
      | Some m \<Rightarrow>
          sum_list (map (\<lambda>(buffer, valid_size). CountCuptiActivityEvent ci buffer valid_size)
                      (cached_buffers m)))"

subsection \<open>Concrete values used to instantiate the theorems\<close>

definition example_collector :: "nat \<Rightarrow> nat \<Rightarrow> nat \<Rightarrow> CuptiTraceCollector" where
  "example_collector max_cb max_act max_str =
     \<lparr>GetOptions = \<lparr>max_callback_api_events = max_cb, max_activity_api_events = max_act,
                    max_annotation_strings = max_str\<rparr>\<rparr>"

definition example_options :: CuptiTracerOptions where
  "example_options =
     \<lparr>enable_nvtx_tracking = False, required_callback_api_events = True,
      cbids_selected = [], activities_selected = [OtherActivityKind 3],
      cupti_finalize = False, sync_devices_before_stop = False, pm_sampler_enable = False\<rparr>"

text \<open>A tracer as \<open>Enable\<close> leaves it, on a machine with two GPUs.\<close>

definition example_tracer :: "CuptiTraceCollector \<Rightarrow> CuptiTracer" where
  "example_tracer c =
     \<lparr>num_gpus = 2, option = Some example_options, collector = Some c,
      cupti_driver_api_hook = Some \<lparr>hook_option = example_options, contexts = []\<rparr>,
      pm_sampler = None,
      activity_buffers = Some \<lparr>buffer_size_in_bytes = 4096, pool = [], cached_buffers = []\<rparr>,
      api_tracing_enabled = True, activity_tracing_enabled = True,
      pm_sampling_enabled = False, need_root_access = False, num_callback_events = 0,
      cupti_dropped_activity_event_count = 0, num_activity_events_in_cached_buffer = 0,
      num_activity_events_in_dropped_buffer = 0\<rparr>"

definition example_event :: "string \<Rightarrow> CuptiTracerEvent" where
  "example_event a = empty_event\<lparr>type := Kernel, source := DriverCallback, annotation := a\<rparr>"

definition example_interface :: CuptiInterface where
  "example_interface =
     \<lparr>GetDeviceId = (\<lambda>ctx. (CUPTI_SUCCESS, 0)),
      GetGraphId = (\<lambda>h old. 5),
      GetGraphExecId = (\<lambda>h old. 6),
      GetGraphNodeId = (\<lambda>h old. h),
      GetResultString = (\<lambda>r. ''CUPTI_ERROR''),
      Disabled = False,
      ActivityGetNumDroppedRecords = (\<lambda>ctx stream_id. (CUPTI_SUCCESS, 0)),
      activity_records = (\<lambda>buffer valid_size. valid_size),
      call_result = (\<lambda>history call. CUPTI_SUCCESS),
      kBufferSizeInBytes = 4096,
      read_hGraph = (\<lambda>a. a),
      SetPlainEventUponApiExit =
        (\<lambda>cb cbdata dev thread start_tsc end_tsc event.
           event\<lparr>type := Generic, source := DriverCallback, name := functionName cbdata,
                 start_time_ns := start_tsc, end_time_ns := end_tsc, thread_id := thread,
                 device_id := dev, context_id := contextUid cbdata,
                 correlation_id := correlationId cbdata, other_info := GenericDetails cb\<rparr>)\<rparr>"

definition example_process :: "CuptiTraceCollector \<Rightarrow> Process" where
  "example_process c =
     \<lparr>tracer = example_tracer c, thread_locals = (\<lambda>t. initial_thread_local),
      registered = [], trace = []\<rparr>"

text \<open>Thread 7 at a moment the vendor clock shows 200.\<close>

definition example_caller :: Caller where
  "example_caller =
     \<lparr>tid = 7, annotation_now = ''step'', scope_range_ids_now = [],
      cupti_timestamp = (CUPTI_SUCCESS, 200)\<rparr>"

text \<open>The exit of a driver call that was entered at time 100, in a context.\<close>

definition example_exit :: "string \<Rightarrow> CUpti_CallbackData" where
  "example_exit fn =
     \<lparr>callbackSite = CUPTI_API_EXIT, functionName = fn, symbolName = None, cu_context = 1,
      contextUid = 1, correlationId = 9, correlationData = 100, functionParams = 0\<rparr>"

text \<open>The resource data of a graph node \<open>n\<close> cloned from node \<open>orig\<close>.\<close>

definition example_node :: "u64 \<Rightarrow> u64 \<Rightarrow> CUpti_GraphData" where
  "example_node n orig =
     \<lparr>graph = 0, originalGraph = 0, node = n, originalNode = orig, graphExec = 0\<rparr>"

text \<open>A callback that arrives before any context exists.\<close>

definition example_no_context :: CUpti_CallbackData where
  "example_no_context = (example_exit ''cuMemAlloc_v2'')\<lparr>cu_context := 0\<rparr>"








text \<open>
  A session with a ceiling of five activity events: a buffer with five records arrives
  and is cached, a mid-session flush delivers it, and a buffer with one record arrives.
  The result is the number of undelivered cached events when the last buffer arrives, and
  the cached buffers, the pool and the dropped-buffer counter after it.
\<close>

definition example_overload_run :: "error + nat \<times> (u64 \<times> nat) list \<times> u64 list \<times> nat" where
  "example_overload_run =
     bind_error (ProcessActivityBuffer example_interface
                   (example_process (example_collector 0 5 0)) 1 0 4096 5)
       (\<lambda>(st1, p1). bind_error (FlushEventsToCollector example_interface p1)
       (\<lambda>(st2, p2). bind_error (ProcessActivityBuffer example_interface p2 1 0 8192 1)
       (\<lambda>(st3, p3).
          Inr (undelivered_activity_events example_interface (tracer p2),
               case activity_buffers (tracer p3) of
                 None \<Rightarrow> ([], [], 0)
               | Some m \<Rightarrow>
                   (cached_buffers m, pool m,
                    num_activity_events_in_dropped_buffer (tracer p3))))))"

text \<open>A tracer that has already cached five activity events.\<close>

definition example_loaded_process :: "CuptiTraceCollector \<Rightarrow> Process" where
  "example_loaded_process c =
     (example_process c)
       \<lparr>tracer := (example_tracer c)\<lparr>num_activity_events_in_cached_buffer := 5\<rparr>\<rparr>"


text \<open>
  A session with a ceiling of two annotation strings: thread 7 traces a call under
  annotation \<open>a\<close>, thread 8 one under \<open>b\<close>, and thread 7 one more under \<open>c\<close>.
\<close>

definition example_two_threads_run :: "error + Process" where
  "example_two_threads_run =
     AddDriverApiCallbackEvents example_interface (example_process (example_collector 0 0 2))
       [(example_caller\<lparr>annotation_now := ''a''\<rparr>, 0, 100, 200, OtherCbid 1,
         example_exit ''cuLaunchKernel''),
        (example_caller\<lparr>tid := 8, annotation_now := ''b''\<rparr>, 0, 300, 400, OtherCbid 1,
         example_exit ''cuLaunchKernel''),
        (example_caller\<lparr>annotation_now := ''c''\<rparr>, 0, 500, 600, OtherCbid 1,
         example_exit ''cuLaunchKernel'')]"

text \<open>
  A session that goes through the synchronisation of \<open>Disable\<close>: tracing is enabled with
  \<open>sync_devices_before_stop\<close>, thread 7 leaves a driver call made in context 1, tracing is
  disabled by thread 7 and enabled again.
\<close>

definition example_session :: "Operation list" where
  "example_session =
     [DoEnable (example_options\<lparr>sync_devices_before_stop := True\<rparr>) (example_collector 8 8 8),
      DoApiCallback example_caller (DriverApiCallback (OtherCbid 1) (example_exit ''cuMemAlloc_v2'')),
      DoDisable example_caller,
      DoEnable example_options (example_collector 8 8 8)]"

section \<open>Properties of the per-thread buffer\<close>

lemma Dedup_fst: "fst (Dedup strings str) = str"
  by (simp add: Dedup_def)

lemma Dedup_length: "length strings \<le> length (snd (Dedup strings str))"
  by (simp add: Dedup_def)

lemma Push_event_queue:
  "event_queue (Push tr g e) =
     event_queue g @
       [if TooManyAnnotationStrings tr (NumAnnotations g) then without_context e else e]"
  by (simp add: Push_def DedupAnnotation_def DedupNvtxRange_def Dedup_def without_context_def
      Let_def)

lemma Push_NumAnnotations: "NumAnnotations g \<le> NumAnnotations (Push tr g e)"
  by (simp add: Push_def DedupAnnotation_def DedupNvtxRange_def Dedup_def NumAnnotations_def
      Let_def)

lemma TooManyAnnotationStrings_mono:
  "TooManyAnnotationStrings tr n \<Longrightarrow> n \<le> m \<Longrightarrow> TooManyAnnotationStrings tr m"
  by (auto simp: TooManyAnnotationStrings_def Let_def split: option.splits)

lemma Push_stays_over_budget:
  "TooManyAnnotationStrings tr (NumAnnotations g)
   \<Longrightarrow> TooManyAnnotationStrings tr (NumAnnotations (Push tr g e))"
  using TooManyAnnotationStrings_mono Push_NumAnnotations by blast

lemma PushAll_over_budget:
  "TooManyAnnotationStrings tr (NumAnnotations g)
   \<Longrightarrow> event_queue (PushAll tr g es) = event_queue g @ map without_context es
       \<and> TooManyAnnotationStrings tr (NumAnnotations (PushAll tr g es))"
proof (induction es arbitrary: g)
  case Nil
  then show ?case by (simp add: PushAll_def)
next
  case (Cons e es)
  have over: "TooManyAnnotationStrings tr (NumAnnotations (Push tr g e))"
    using Cons.prems by (rule Push_stays_over_budget)
  have step: "PushAll tr g (e # es) = PushAll tr (Push tr g e) es"
    by (simp add: PushAll_def)
  show ?case
    using Cons.IH [OF over] Cons.prems by (simp add: step Push_event_queue)
qed

text \<open>
  C3, as the code has it. \<open>Push\<close> is total (it returns the buffer, there is no error
  result). The budget test compares the number of annotation strings of the buffer in hand
  with the ceiling. An event pushed while the test fails is stored unchanged behind the
  events already there; once the test holds for the buffer, every event of any further
  sequence of pushes on it is stored, in order, with empty annotation and range label,
  the events stored before stay as they are, and the test keeps holding.
\<close>

theorem Push_annotation_budget:
  "(\<not> TooManyAnnotationStrings tr (NumAnnotations g)
      \<longrightarrow> event_queue (Push tr g e) = event_queue g @ [e])
   \<and> (TooManyAnnotationStrings tr (NumAnnotations g)
      \<longrightarrow> event_queue (PushAll tr g es) = event_queue g @ map without_context es
          \<and> TooManyAnnotationStrings tr (NumAnnotations (PushAll tr g es)))"
  using PushAll_over_budget [of tr g es] by (simp add: Push_event_queue)

theorem Push_annotation_budget_witness:
  "event_queue (Push (example_tracer (example_collector 0 0 1)) empty_annotations_and_events
      (example_event ''a'')) = [example_event ''a'']
   \<and> event_queue (PushAll (example_tracer (example_collector 0 0 1))
        (Push (example_tracer (example_collector 0 0 1)) empty_annotations_and_events
           (example_event ''a''))
        [example_event ''b'', example_event ''a''])
     = [example_event ''a'', without_context (example_event ''b''),
        without_context (example_event ''a'')]"
proof -
  let ?tr = "example_tracer (example_collector 0 0 1)"
  let ?g0 = "empty_annotations_and_events"
  let ?g1 = "Push ?tr ?g0 (example_event ''a'')"
  have under: "\<not> TooManyAnnotationStrings ?tr (NumAnnotations ?g0)"
    by (simp add: TooManyAnnotationStrings_def example_tracer_def example_collector_def
        NumAnnotations_def empty_annotations_and_events_def)
  have over: "TooManyAnnotationStrings ?tr (NumAnnotations ?g1)"
    by (simp add: TooManyAnnotationStrings_def example_tracer_def example_collector_def
        NumAnnotations_def empty_annotations_and_events_def Push_def DedupAnnotation_def
        DedupNvtxRange_def Dedup_def example_event_def empty_event_def)
  have first: "event_queue ?g1 = [example_event ''a'']"
    using Push_annotation_budget [of ?tr ?g0 "example_event ''a''" "[]"] under
    by (simp add: empty_annotations_and_events_def)
  show ?thesis
    using Push_annotation_budget
      [of ?tr ?g1 "example_event ''a''" "[example_event ''b'', example_event ''a'']"]
      over first
    by simp
qed

text \<open>
  The budget is not one of the session. With a ceiling of one string, a buffer whose
  budget is used up is drained, and the next event pushed keeps its annotation. With a
  ceiling of two strings, after threads 7 and 8 have stored one string each, thread 7
  still stores a third one.
\<close>

theorem annotation_budget_is_per_buffer:
  "TooManyAnnotationStrings (example_tracer (example_collector 0 0 1))
     (NumAnnotations (Push (example_tracer (example_collector 0 0 1))
                        empty_annotations_and_events (example_event ''a'')))
   \<and> map annotation (event_queue
         (Push (example_tracer (example_collector 0 0 1))
            (snd (Consume (Push (example_tracer (example_collector 0 0 1))
                             empty_annotations_and_events (example_event ''a''))))
            (example_event ''b'')))
       = [''b'']
   \<and> stored_annotations example_two_threads_run 7 = Some [''a'', ''c'']
   \<and> stored_annotations example_two_threads_run 8 = Some [''b'']"
  by code_simp

subsection \<open>Consume\<close>

lemma without_context_idem: "without_context (without_context e) = without_context e"
  by (simp add: without_context_def)

lemma PushAll_snoc: "PushAll tr g (es @ [e]) = Push tr (PushAll tr g es) e"
  by (simp add: PushAll_def)

lemma PushAll_stored:
  "\<exists>ss. event_queue (PushAll tr g es) = event_queue g @ ss
        \<and> list_all2 (\<lambda>s e. s = e \<or> s = without_context e) ss es"
proof (induction es rule: rev_induct)
  case Nil
  show ?case by (simp add: PushAll_def)
next
  case (snoc e es)
  then obtain ss where q: "event_queue (PushAll tr g es) = event_queue g @ ss"
    and rel: "list_all2 (\<lambda>s e. s = e \<or> s = without_context e) ss es"
    by blast
  let ?s = "if TooManyAnnotationStrings tr (NumAnnotations (PushAll tr g es))
            then without_context e else e"
  have "event_queue (PushAll tr g (es @ [e])) = event_queue g @ (ss @ [?s])"
    by (simp add: PushAll_snoc Push_event_queue q)
  moreover have "list_all2 (\<lambda>s e. s = e \<or> s = without_context e) (ss @ [?s]) (es @ [e])"
    using rel by (simp add: list_all2_appendI)
  ultimately show ?case by blast
qed

lemma not_TooManyAnnotationStrings_unlimited:
  "collector tr = Some c \<Longrightarrow> max_annotation_strings (GetOptions c) = 0
   \<Longrightarrow> \<not> TooManyAnnotationStrings tr n"
  by (simp add: TooManyAnnotationStrings_def)

lemma PushAll_unlimited:
  "collector tr = Some c \<Longrightarrow> max_annotation_strings (GetOptions c) = 0
   \<Longrightarrow> event_queue (PushAll tr g es) = event_queue g @ es"
proof (induction es rule: rev_induct)
  case Nil
  show ?case by (simp add: PushAll_def)
next
  case (snoc e es)
  then show ?case
    by (simp add: PushAll_snoc Push_event_queue not_TooManyAnnotationStrings_unlimited)
qed

text \<open>
  C8, as the code has it. After any sequence of pushes on an empty buffer \<open>Consume\<close>
  returns one stored event per push, in issuance order; each stored event is the pushed
  event, or the pushed event with annotation and range label emptied (the budget of C3);
  with no annotation ceiling configured (ceiling \<open>0\<close>, collector attached) the returned
  events are exactly the pushed ones. The thread is left with the empty collection, so the
  next push is the only event of the new buffer.
\<close>

theorem Consume_returns_pushed_events:
  "length (event_queue (fst (Consume (PushAll tr empty_annotations_and_events es))))
     = length es
   \<and> (\<forall>i < length es.
         event_queue (fst (Consume (PushAll tr empty_annotations_and_events es))) ! i = es ! i
       \<or> event_queue (fst (Consume (PushAll tr empty_annotations_and_events es))) ! i
           = without_context (es ! i))
   \<and> map without_context
         (event_queue (fst (Consume (PushAll tr empty_annotations_and_events es))))
       = map without_context es
   \<and> (collector tr = Some c \<and> max_annotation_strings (GetOptions c) = 0
        \<longrightarrow> event_queue (fst (Consume (PushAll tr empty_annotations_and_events es))) = es)
   \<and> snd (Consume (PushAll tr empty_annotations_and_events es))
       = empty_annotations_and_events
   \<and> length (event_queue
         (Push tr (snd (Consume (PushAll tr empty_annotations_and_events es))) e)) = 1"
proof -
  let ?g = "PushAll tr empty_annotations_and_events es"
  obtain ss where q: "event_queue ?g = event_queue empty_annotations_and_events @ ss"
    and rel: "list_all2 (\<lambda>s e. s = e \<or> s = without_context e) ss es"
    using PushAll_stored by blast
  have q': "event_queue ?g = ss"
    using q by (simp add: empty_annotations_and_events_def)
  have len: "length ss = length es"
    using rel by (rule list_all2_lengthD)
  have nth: "\<forall>i < length es. ss ! i = es ! i \<or> ss ! i = without_context (es ! i)"
    using rel by (simp add: list_all2_conv_all_nth)
  have "\<forall>i < length es. without_context (ss ! i) = without_context (es ! i)"
    using nth without_context_idem by metis
  then have maps: "map without_context ss = map without_context es"
    using len by (simp add: list_eq_iff_nth_eq)
  have unl: "collector tr = Some c \<and> max_annotation_strings (GetOptions c) = 0 \<longrightarrow> ss = es"
    using PushAll_unlimited [of tr c empty_annotations_and_events es] q'
    by (simp add: empty_annotations_and_events_def)
  have one: "length (event_queue (Push tr empty_annotations_and_events e)) = 1"
    by (simp add: Push_event_queue empty_annotations_and_events_def)
  show ?thesis
    using len nth maps unl one by (simp add: Consume_def q')
qed

theorem Consume_returns_pushed_events_witness:
  "event_queue (fst (Consume (PushAll (example_tracer (example_collector 0 0 0))
       empty_annotations_and_events [example_event ''a'', example_event ''b''])))
     = [example_event ''a'', example_event ''b'']
   \<and> (event_queue (fst (Consume (PushAll (example_tracer (example_collector 0 0 0))
         empty_annotations_and_events [example_event ''a'', example_event ''b'']))) ! 1
        = example_event ''b''
      \<or> event_queue (fst (Consume (PushAll (example_tracer (example_collector 0 0 0))
         empty_annotations_and_events [example_event ''a'', example_event ''b'']))) ! 1
        = without_context (example_event ''b''))"
  using Consume_returns_pushed_events
    [of "example_tracer (example_collector 0 0 0)"
        "[example_event ''a'', example_event ''b'']" "example_collector 0 0 0"]
  by (simp add: example_tracer_def example_collector_def)

text \<open>
  With an annotation ceiling of one string, the second of two events with different
  annotations comes back without its annotation: the returned events are not exactly the
  pushed ones.
\<close>

theorem Consume_not_exactly_pushed:
  "event_queue (fst (Consume (PushAll (example_tracer (example_collector 0 0 1))
       empty_annotations_and_events [example_event ''a'', example_event ''b''])))
     \<noteq> [example_event ''a'', example_event ''b'']"
  by (simp add: Consume_def PushAll_def Push_event_queue TooManyAnnotationStrings_def
      example_tracer_def example_collector_def NumAnnotations_def Push_def
      DedupAnnotation_def DedupNvtxRange_def Dedup_def empty_annotations_and_events_def
      example_event_def empty_event_def without_context_def)

subsection \<open>The scope-range-id tree\<close>

lemma add_parent_links_known:
  "tree k \<noteq> None \<Longrightarrow> add_parent_links tree xs k = tree k"
  by (induction tree xs rule: add_parent_links.induct) auto

lemma add_parent_links_head:
  "add_parent_links tree (c # p # xs) c \<noteq> None"
proof (cases "tree c")
  case None
  have "add_parent_links (tree(c \<mapsto> p)) (p # xs) c = (tree(c \<mapsto> p)) c"
    by (rule add_parent_links_known) simp
  with None show ?thesis by simp
next
  case (Some a)
  then show ?thesis by simp
qed

lemma add_parent_links_idem:
  "add_parent_links (add_parent_links tree xs) xs = add_parent_links tree xs"
proof (cases xs)
  case Nil
  then show ?thesis by simp
next
  case (Cons c ys)
  show ?thesis
  proof (cases ys)
    case Nil
    with Cons show ?thesis by simp
  next
    case (Cons p rest)
    have xs: "xs = c # p # rest"
      using \<open>xs = c # ys\<close> Cons by simp
    have "add_parent_links tree (c # p # rest) c \<noteq> None"
      by (rule add_parent_links_head)
    then show ?thesis
      unfolding xs by (subst add_parent_links.simps(1)) simp
  qed
qed

lemma add_parent_links_new:
  "add_parent_links tree xs k = Some p \<Longrightarrow> tree k = None
   \<Longrightarrow> \<exists>as bs. xs = as @ k # p # bs"
proof (induction tree xs rule: add_parent_links.induct)
  case (1 tree c q rest)
  show ?case
  proof (cases "tree c \<noteq> None")
    case True
    with 1 show ?thesis by simp
  next
    case False
    show ?thesis
    proof (cases "k = c")
      case True
      have "add_parent_links (tree(c \<mapsto> q)) (q # rest) c = (tree(c \<mapsto> q)) c"
        by (rule add_parent_links_known) simp
      with 1(2) False True have "p = q" by simp
      with True have "c # q # rest = [] @ k # p # rest" by simp
      then show ?thesis by blast
    next
      case kc: False
      from 1(2) False have "add_parent_links (tree(c \<mapsto> q)) (q # rest) k = Some p"
        by simp
      moreover from kc 1(3) have "(tree(c \<mapsto> q)) k = None" by simp
      ultimately obtain as bs where "q # rest = as @ k # p # bs"
        using 1(1) False by blast
      then have "c # q # rest = (c # as) @ k # p # bs" by simp
      then show ?thesis by blast
    qed
  qed
qed simp_all

lemma add_parent_links_stop:
  "tree x \<noteq> None \<Longrightarrow> add_parent_links tree (ys @ x # zs) = add_parent_links tree (ys @ [x])"
proof (induction ys arbitrary: tree)
  case Nil
  then show ?case by (cases zs) simp_all
next
  case (Cons y ys)
  show ?case
  proof (cases "tree y \<noteq> None")
    case True
    then show ?thesis by (cases ys) simp_all
  next
    case False
    have step: "add_parent_links (tree(y \<mapsto> v)) (ys @ x # zs)
              = add_parent_links (tree(y \<mapsto> v)) (ys @ [x])" for v
    proof (rule Cons.IH)
      show "(tree(y \<mapsto> v)) x \<noteq> None" using Cons.prems by simp
    qed
    show ?thesis
    proof (cases ys)
      case Nil
      with False step show ?thesis by simp
    next
      case (Cons y' ys')
      with False step show ?thesis by simp
    qed
  qed
qed

lemma add_parent_links_stops_at_once:
  assumes "tree x \<noteq> None \<or> ps = []"
  shows "add_parent_links tree (x # ps) = tree"
  using assms by (cases ps) auto

text \<open>
  The walk over \<open>pre @ x # suf\<close> from the tail, where the ids of \<open>suf\<close> are unknown and
  differ from one another and the walk ends at \<open>x\<close>: every id of \<open>suf\<close> is linked to the id
  before it, and no other link changes.
\<close>

lemma add_parent_links_suffix:
  assumes "distinct suf" and "\<forall>y \<in> set suf. tree y = None"
    and "tree x \<noteq> None \<or> x \<in> set suf \<or> pre = []"
  shows "(\<forall>i < length suf.
            add_parent_links tree (rev suf @ x # rev pre) (suf ! i) = Some ((x # suf) ! i))
       \<and> (\<forall>k. k \<notin> set suf \<longrightarrow> add_parent_links tree (rev suf @ x # rev pre) k = tree k)"
  using assms
proof (induction suf arbitrary: tree rule: rev_induct)
  case Nil
  then have "add_parent_links tree (x # rev pre) = tree"
    by (intro add_parent_links_stops_at_once) simp
  then show ?case by simp
next
  case (snoc c suf0)
  define nxt where "nxt = last (x # suf0)"
  define tree1 where "tree1 = tree(c \<mapsto> nxt)"
  define R where "R = add_parent_links tree1 (rev suf0 @ x # rev pre)"
  have cnone: "tree c = None" using snoc.prems(2) by simp
  have cnew: "c \<notin> set suf0" and d0: "distinct suf0" using snoc.prems(1) by simp_all
  obtain rest where shape: "rev suf0 @ x # rev pre = nxt # rest"
    by (cases suf0 rule: rev_cases) (simp_all add: nxt_def)
  have run: "add_parent_links tree (rev (suf0 @ [c]) @ x # rev pre) = R"
    using cnone by (simp add: shape R_def tree1_def)
  have u0: "\<forall>y \<in> set suf0. tree1 y = None"
    using snoc.prems(2) cnew by (auto simp: tree1_def)
  have x0: "tree1 x \<noteq> None \<or> x \<in> set suf0 \<or> pre = []"
    using snoc.prems(3) by (auto simp: tree1_def)
  have IH: "(\<forall>i < length suf0. R (suf0 ! i) = Some ((x # suf0) ! i))
          \<and> (\<forall>k. k \<notin> set suf0 \<longrightarrow> R k = tree1 k)"
    unfolding R_def using d0 u0 x0 by (rule snoc.IH)
  have Rc: "R c = Some nxt"
    using IH cnew by (simp add: tree1_def)
  have lastnth: "(x # suf0) ! length suf0 = nxt"
    by (simp add: nxt_def last_conv_nth)
  have A: "\<forall>i < length (suf0 @ [c]). R ((suf0 @ [c]) ! i) = Some ((x # suf0 @ [c]) ! i)"
  proof (intro allI impI)
    fix i assume i: "i < length (suf0 @ [c])"
    show "R ((suf0 @ [c]) ! i) = Some ((x # suf0 @ [c]) ! i)"
    proof (cases "i < length suf0")
      case True
      have "(x # suf0 @ [c]) ! i = ((x # suf0) @ [c]) ! i" by simp
      also have "\<dots> = (x # suf0) ! i" using True by (simp only: nth_append) simp
      finally show ?thesis using IH True by (simp add: nth_append)
    next
      case False
      with i have ieq: "i = length suf0" by simp
      have "(x # suf0 @ [c]) ! i = ((x # suf0) @ [c]) ! length suf0" by (simp add: ieq)
      also have "\<dots> = (x # suf0) ! length suf0" by (simp only: nth_append) simp
      finally show ?thesis using Rc lastnth by (simp add: ieq)
    qed
  qed
  have B: "\<forall>k. k \<notin> set (suf0 @ [c]) \<longrightarrow> R k = tree k"
    using IH by (auto simp: tree1_def)
  show ?case unfolding run using A B by blast
qed

lemma AddScopeRangeIdSequence_suffix:
  assumes "distinct suf" and "\<forall>y \<in> set suf. scope_range_id_tree g y = None"
    and "scope_range_id_tree g x \<noteq> None \<or> x \<in> set suf \<or> pre = []"
  shows "(\<forall>i < length suf.
            scope_range_id_tree (AddScopeRangeIdSequence g (pre @ x # suf)) (suf ! i)
              = Some ((x # suf) ! i))
       \<and> (\<forall>k. k \<notin> set suf
            \<longrightarrow> scope_range_id_tree (AddScopeRangeIdSequence g (pre @ x # suf)) k
                = scope_range_id_tree g k)"
proof (cases "length (pre @ x # suf) > 1")
  case True
  then have "scope_range_id_tree (AddScopeRangeIdSequence g (pre @ x # suf))
      = add_parent_links (scope_range_id_tree g) (rev suf @ x # rev pre)"
    by (simp add: AddScopeRangeIdSequence_def)
  then show ?thesis using add_parent_links_suffix [OF assms] by simp
next
  case False
  then have "suf = []" by simp
  with False show ?thesis by (simp add: AddScopeRangeIdSequence_def)
qed

text \<open>
  C9. Calling \<open>AddScopeRangeIdSequence\<close> twice with the same sequence gives the state of
  calling it once. A link of an id already in the tree is never changed; every link that
  is new joins an id of the sequence to the id just before it; and the walk stops at the
  first known id met from the tail: what precedes a known id in the sequence plays no role.
  The links made are exactly these: when the sequence is \<open>pre @ x # suf\<close>, the ids of
  \<open>suf\<close> are unknown and differ from one another, and \<open>x\<close> is known, or occurs again in
  \<open>suf\<close>, or is the head of the sequence, then every id of \<open>suf\<close> is linked to the id just
  before it in the sequence, and the link of every other id is as it was.
\<close>

theorem AddScopeRangeIdSequence_idempotent:
  "AddScopeRangeIdSequence (AddScopeRangeIdSequence g s) s = AddScopeRangeIdSequence g s
   \<and> (scope_range_id_tree g k \<noteq> None
        \<longrightarrow> scope_range_id_tree (AddScopeRangeIdSequence g s) k = scope_range_id_tree g k)
   \<and> (scope_range_id_tree g k = None
        \<and> scope_range_id_tree (AddScopeRangeIdSequence g s) k = Some p
        \<longrightarrow> (\<exists>ys zs. s = ys @ p # k # zs))
   \<and> (scope_range_id_tree g x \<noteq> None
        \<longrightarrow> AddScopeRangeIdSequence g (pre @ x # suf) = AddScopeRangeIdSequence g (x # suf))
   \<and> (distinct suf \<and> (\<forall>y \<in> set suf. scope_range_id_tree g y = None)
        \<and> (scope_range_id_tree g x \<noteq> None \<or> x \<in> set suf \<or> pre = [])
        \<longrightarrow> (\<forall>i < length suf.
               scope_range_id_tree (AddScopeRangeIdSequence g (pre @ x # suf)) (suf ! i)
                 = Some ((x # suf) ! i))
          \<and> (\<forall>j. j \<notin> set suf
                 \<longrightarrow> scope_range_id_tree (AddScopeRangeIdSequence g (pre @ x # suf)) j
                     = scope_range_id_tree g j))"
proof -
  have idem: "AddScopeRangeIdSequence (AddScopeRangeIdSequence g s) s
                = AddScopeRangeIdSequence g s"
    by (simp add: AddScopeRangeIdSequence_def add_parent_links_idem)
  have keep: "scope_range_id_tree g k \<noteq> None
      \<longrightarrow> scope_range_id_tree (AddScopeRangeIdSequence g s) k = scope_range_id_tree g k"
    by (simp add: AddScopeRangeIdSequence_def add_parent_links_known)
  have new: "scope_range_id_tree g k = None
        \<and> scope_range_id_tree (AddScopeRangeIdSequence g s) k = Some p
      \<longrightarrow> (\<exists>ys zs. s = ys @ p # k # zs)"
  proof
    assume a: "scope_range_id_tree g k = None
        \<and> scope_range_id_tree (AddScopeRangeIdSequence g s) k = Some p"
    then have "add_parent_links (scope_range_id_tree g) (rev s) k = Some p"
      by (auto simp: AddScopeRangeIdSequence_def split: if_splits)
    with a obtain as bs where "rev s = as @ k # p # bs"
      using add_parent_links_new by blast
    then have "rev (rev s) = rev (as @ k # p # bs)" by simp
    then have "s = rev bs @ p # k # rev as" by simp
    then show "\<exists>ys zs. s = ys @ p # k # zs" by blast
  qed
  have stop: "scope_range_id_tree g x \<noteq> None
      \<longrightarrow> AddScopeRangeIdSequence g (pre @ x # suf) = AddScopeRangeIdSequence g (x # suf)"
  proof
    assume kx: "scope_range_id_tree g x \<noteq> None"
    have l: "add_parent_links (scope_range_id_tree g) (rev suf @ x # rev pre)
           = add_parent_links (scope_range_id_tree g) (rev suf @ [x])"
      using kx by (rule add_parent_links_stop)
    have r: "add_parent_links (scope_range_id_tree g) [x] = scope_range_id_tree g"
      by simp
    have e: "add_parent_links (scope_range_id_tree g) (x # rev pre) = scope_range_id_tree g"
      using kx by (cases "rev pre") simp_all
    show "AddScopeRangeIdSequence g (pre @ x # suf) = AddScopeRangeIdSequence g (x # suf)"
    proof (cases suf)
      case Nil
      then show ?thesis using e by (simp add: AddScopeRangeIdSequence_def)
    next
      case (Cons a as)
      then show ?thesis using l by (simp add: AddScopeRangeIdSequence_def)
    qed
  qed
  have links: "distinct suf \<and> (\<forall>y \<in> set suf. scope_range_id_tree g y = None)
        \<and> (scope_range_id_tree g x \<noteq> None \<or> x \<in> set suf \<or> pre = [])
      \<longrightarrow> (\<forall>i < length suf.
             scope_range_id_tree (AddScopeRangeIdSequence g (pre @ x # suf)) (suf ! i)
               = Some ((x # suf) ! i))
        \<and> (\<forall>j. j \<notin> set suf
               \<longrightarrow> scope_range_id_tree (AddScopeRangeIdSequence g (pre @ x # suf)) j
                   = scope_range_id_tree g j)"
  proof
    assume a: "distinct suf \<and> (\<forall>y \<in> set suf. scope_range_id_tree g y = None)
        \<and> (scope_range_id_tree g x \<noteq> None \<or> x \<in> set suf \<or> pre = [])"
    then have 1: "distinct suf" and 2: "\<forall>y \<in> set suf. scope_range_id_tree g y = None"
      and 3: "scope_range_id_tree g x \<noteq> None \<or> x \<in> set suf \<or> pre = []"
      by simp_all
    show "(\<forall>i < length suf.
             scope_range_id_tree (AddScopeRangeIdSequence g (pre @ x # suf)) (suf ! i)
               = Some ((x # suf) ! i))
        \<and> (\<forall>j. j \<notin> set suf
               \<longrightarrow> scope_range_id_tree (AddScopeRangeIdSequence g (pre @ x # suf)) j
                   = scope_range_id_tree g j)"
      using 1 2 3 by (rule AddScopeRangeIdSequence_suffix)
  qed
  show ?thesis
    by (intro conjI) (rule idem, rule keep, rule new, rule stop, rule links)
qed

theorem AddScopeRangeIdSequence_idempotent_witness:
  "scope_range_id_tree
      (AddScopeRangeIdSequence
         (empty_annotations_and_events\<lparr>scope_range_id_tree := [2 \<mapsto> 1]\<rparr>) [1, 2, 3, 4]) 1
     = None
   \<and> scope_range_id_tree
      (AddScopeRangeIdSequence
         (empty_annotations_and_events\<lparr>scope_range_id_tree := [2 \<mapsto> 1]\<rparr>) [1, 2, 3, 4]) 2
     = Some 1
   \<and> scope_range_id_tree
      (AddScopeRangeIdSequence
         (empty_annotations_and_events\<lparr>scope_range_id_tree := [2 \<mapsto> 1]\<rparr>) [1, 2, 3, 4]) 3
     = Some 2
   \<and> scope_range_id_tree
      (AddScopeRangeIdSequence
         (empty_annotations_and_events\<lparr>scope_range_id_tree := [2 \<mapsto> 1]\<rparr>) [1, 2, 3, 4]) 4
     = Some 3
   \<and> AddScopeRangeIdSequence
         (empty_annotations_and_events\<lparr>scope_range_id_tree := [2 \<mapsto> 1]\<rparr>) [1, 2, 3, 4]
     = AddScopeRangeIdSequence
         (empty_annotations_and_events\<lparr>scope_range_id_tree := [2 \<mapsto> 1]\<rparr>) [2, 3, 4]
   \<and> AddScopeRangeIdSequence
         (AddScopeRangeIdSequence
            (empty_annotations_and_events\<lparr>scope_range_id_tree := [2 \<mapsto> 1]\<rparr>) [1, 2, 3, 4])
         [1, 2, 3, 4]
     = AddScopeRangeIdSequence
         (empty_annotations_and_events\<lparr>scope_range_id_tree := [2 \<mapsto> 1]\<rparr>) [1, 2, 3, 4]"
proof -
  let ?g = "empty_annotations_and_events\<lparr>scope_range_id_tree := [2 \<mapsto> 1]\<rparr>"
  let ?t = "scope_range_id_tree (AddScopeRangeIdSequence ?g ([1] @ 2 # [3, 4]))"
  note T = AddScopeRangeIdSequence_idempotent
             [where g = ?g and s = "[1, 2, 3, 4]" and k = 2 and p = 1 and x = 2
                and pre = "[1]" and suf = "[3, 4]"]
  have known: "scope_range_id_tree ?g 2 \<noteq> None" by simp
  have unknown: "distinct [3, 4 :: i64] \<and> (\<forall>y \<in> set [3, 4]. scope_range_id_tree ?g y = None)
      \<and> (scope_range_id_tree ?g 2 \<noteq> None \<or> 2 \<in> set [3, 4 :: i64] \<or> [1 :: i64] = [])"
    by simp
  have idem: "AddScopeRangeIdSequence (AddScopeRangeIdSequence ?g [1, 2, 3, 4]) [1, 2, 3, 4]
                = AddScopeRangeIdSequence ?g [1, 2, 3, 4]"
    using T by (rule conjunct1)
  have keep: "scope_range_id_tree (AddScopeRangeIdSequence ?g [1, 2, 3, 4]) 2
                = scope_range_id_tree ?g 2"
    using T known by blast
  have stop: "AddScopeRangeIdSequence ?g ([1] @ 2 # [3, 4])
                = AddScopeRangeIdSequence ?g (2 # [3, 4])"
    using T known by blast
  have links: "(\<forall>i < length [3, 4 :: i64]. ?t ([3, 4] ! i) = Some ((2 # [3, 4]) ! i))
      \<and> (\<forall>j. j \<notin> set [3, 4] \<longrightarrow> ?t j = scope_range_id_tree ?g j)"
    using T unknown by blast
  have three: "?t 3 = Some 2"
    using links [THEN conjunct1, rule_format, of 0] by simp
  have four: "?t 4 = Some 3"
    using links [THEN conjunct1, rule_format, of 1] by simp
  have one: "?t 1 = None"
    using links [THEN conjunct2, rule_format, of 1] by simp
  show ?thesis
    using idem keep stop three four one by simp
qed

subsection \<open>CUDA-graph events\<close>

lemma Push_timeline:
  "map timeline (event_queue (Push tr g e)) = map timeline (event_queue g) @ [timeline e]"
  by (simp add: Push_event_queue timeline_def without_context_def)

text \<open>
  What the loop over the node-id map does for any map: one node-map event per entry, and
  every one of them with the window from the start time of the call to 1 ns later.
\<close>

lemma push_node_map_events_timeline:
  "map timeline (event_queue
      (push_node_map_events tr ev dev cb cbdata th info st entries g))
   = map timeline (event_queue g) @ replicate (length entries) (CudaGraphNodeMap, st, st + 1)"
proof (induction entries arbitrary: g)
  case Nil
  show ?case by simp
next
  case (Cons entry entries)
  obtain n orig where entry: "entry = (n, orig)" by (cases entry)
  obtain ce where step: "push_node_map_events tr ev dev cb cbdata th info st (entry # entries) g
      = push_node_map_events tr ev dev cb cbdata th info st entries (Push tr g ce)"
    and ce: "timeline ce = (CudaGraphNodeMap, st, st + 1)"
    unfolding entry by (simp add: Let_def timeline_def kTimeIncrementNs_def)
  show ?case
    unfolding step by (simp add: Cons.IH Push_timeline ce replicate_append_same)
qed

text \<open>
  C1, evaluated. Thread 7 is told that nodes 11 and 12 were cloned from nodes 1 and 2, and
  then leaves \<open>cuGraphClone\<close>, entered at time 100 and left at time 200. Its buffer holds
  two node-map events and then the graph event; both node-map events have the window from
  100 to 101, where timestamps 1 ns apart would be 100 and 101.
\<close>

theorem clone_node_map_events_same_window:
  "timelines
     (ApiCallbacks example_interface (example_process (example_collector 0 0 0))
        [(example_caller,
          ResourceCallback CUPTI_CBID_RESOURCE_GRAPHNODE_CLONED (example_node 11 1)),
         (example_caller,
          ResourceCallback CUPTI_CBID_RESOURCE_GRAPHNODE_CLONED (example_node 12 2)),
         (example_caller, DriverApiCallback cuGraphClone (example_exit ''cuGraphClone''))])
     7
   = Some [(CudaGraphNodeMap, 100, 101), (CudaGraphNodeMap, 100, 101), (CudaGraph, 100, 200)]"
  by code_simp

subsection \<open>The dispatcher\<close>

lemma tracer_PerThread_Get [simp]: "tracer (PerThread_Get p t) = tracer p"
  by (simp add: PerThread_Get_def)

lemma thread_locals_PerThread_Get [simp]: "thread_locals (PerThread_Get p t) = thread_locals p"
  by (simp add: PerThread_Get_def)

lemma TooManyCallbackEvents_hook [simp]:
  "TooManyCallbackEvents (tr\<lparr>cupti_driver_api_hook := h\<rparr>) = TooManyCallbackEvents tr"
  by (simp add: TooManyCallbackEvents_def Let_def split: option.splits)

lemma SetCudaGraphNodeEventUponApiExit_empty:
  "node_id_map (per_thread_graph_info tlocal) = []
   \<Longrightarrow> SetCudaGraphNodeEventUponApiExit event dev cb cbdata s e th tlocal
       = Inl EmptyMapBeginDereference"
  by (simp add: SetCudaGraphNodeEventUponApiExit_def)

lemma AddDriverApiCallbackEvent_empty_node_map:
  assumes "\<not> TooManyCallbackEvents (tracer p)"
    and "is_cuda_graph_node_cbid cb"
    and "node_id_map (per_thread_graph_info (thread_locals p (tid caller))) = []"
  shows "AddDriverApiCallbackEvent ci p caller dev s e cb cbdata = Inl EmptyMapBeginDereference"
proof -
  have ng: "\<not> is_cuda_graph_cbid cb"
    using assms(2) by (cases cb) simp_all
  show ?thesis
    using assms ng
    by (simp add: AddDriverApiCallbackEvent_def Let_def SetCallbackEventUponApiExit_def
        SetCudaGraphNodeEventUponApiExit_empty)
qed

lemma HandleCallback_empty_node_map:
  assumes "api_tracing_enabled (tracer p)"
    and "cupti_driver_api_hook (tracer p) \<noteq> None"
    and "internalCuCall (thread_locals p (tid caller)) = 0"
    and "cu_context d \<noteq> 0"
    and "GetDeviceId ci (cu_context d) = (CUPTI_SUCCESS, dv)"
    and "dv < word_of_int (num_gpus (tracer p))"
    and "callbackSite d = CUPTI_API_EXIT"
    and "\<not> TooManyCallbackEvents (tracer p)"
    and "is_cuda_graph_node_cbid c"
    and "node_id_map (per_thread_graph_info (thread_locals p (tid caller))) = []"
  shows "HandleCallback ci p caller (DriverApiCallback c d) = Inl EmptyMapBeginDereference"
proof -
  obtain h where h: "cupti_driver_api_hook (tracer p) = Some h"
    using assms(2) by blast
  let ?p' = "p\<lparr>tracer := (tracer p)\<lparr>cupti_driver_api_hook := Some (TrackContext h c (cu_context d))\<rparr>\<rparr>"
  have "AddDriverApiCallbackEvent ci ?p' caller dv (correlationData d) (GetTimestamp caller) c d
          = Inl EmptyMapBeginDereference"
    using assms(8,9,10) by (intro AddDriverApiCallbackEvent_empty_node_map) simp_all
  then have exit: "OnDriverApiExit ci h p caller dv c d = Inl EmptyMapBeginDereference"
    by (simp add: OnDriverApiExit_def Let_def)
  have "HandleDriverApiCallback ci p caller c d = Inl EmptyMapBeginDereference"
    using assms(3,4,5,6,7) h exit
    by (simp add: HandleDriverApiCallback_def not_le [symmetric])
  then show ?thesis
    using assms(1) h by (simp add: HandleCallback_def)
qed

text \<open>
  C10. \<open>SetCudaGraphNodeEventUponApiExit\<close> needs a non-empty node-id map: on an empty
  map the read of \<open>begin()\<close> is the error branch, on a map with a first entry the event
  carries that entry's node id and origin and the map is cleared. The error branch is
  reached through \<open>HandleCallback\<close>: a cuGraphAdd* exit that passes the checks of the
  dispatcher on a thread whose map is empty, as it is when no node-creation resource
  notification came before.
\<close>

theorem SetCudaGraphNodeEventUponApiExit_needs_node_entry:
  "(node_id_map (per_thread_graph_info tlocal) = []
      \<longrightarrow> SetCudaGraphNodeEventUponApiExit event dev cb cbdata s e th tlocal
          = Inl EmptyMapBeginDereference)
   \<and> (node_id_map (per_thread_graph_info tlocal) = (n, orig) # entries
      \<longrightarrow> (\<exists>event' tlocal'.
            SetCudaGraphNodeEventUponApiExit event dev cb cbdata s e th tlocal
              = Inr (event', tlocal')
            \<and> graph_node_id event' = n
            \<and> orig_graph_node_id (cuda_graph_info event') = orig
            \<and> node_id_map (per_thread_graph_info tlocal') = []))
   \<and> (api_tracing_enabled (tracer p) \<and> cupti_driver_api_hook (tracer p) \<noteq> None
      \<and> internalCuCall (thread_locals p (tid caller)) = 0
      \<and> cu_context d \<noteq> 0 \<and> GetDeviceId ci (cu_context d) = (CUPTI_SUCCESS, dv)
      \<and> dv < word_of_int (num_gpus (tracer p)) \<and> callbackSite d = CUPTI_API_EXIT
      \<and> \<not> TooManyCallbackEvents (tracer p) \<and> is_cuda_graph_node_cbid c
      \<and> node_id_map (per_thread_graph_info (thread_locals p (tid caller))) = []
      \<longrightarrow> HandleCallback ci p caller (DriverApiCallback c d) = Inl EmptyMapBeginDereference)"
proof (intro conjI impI)
  assume "node_id_map (per_thread_graph_info tlocal) = []"
  then show "SetCudaGraphNodeEventUponApiExit event dev cb cbdata s e th tlocal
          = Inl EmptyMapBeginDereference"
    by (rule SetCudaGraphNodeEventUponApiExit_empty)
next
  assume "node_id_map (per_thread_graph_info tlocal) = (n, orig) # entries"
  then show "\<exists>event' tlocal'.
            SetCudaGraphNodeEventUponApiExit event dev cb cbdata s e th tlocal
              = Inr (event', tlocal')
            \<and> graph_node_id event' = n
            \<and> orig_graph_node_id (cuda_graph_info event') = orig
            \<and> node_id_map (per_thread_graph_info tlocal') = []"
    by (simp add: SetCudaGraphNodeEventUponApiExit_def Let_def)
next
  assume "api_tracing_enabled (tracer p) \<and> cupti_driver_api_hook (tracer p) \<noteq> None
      \<and> internalCuCall (thread_locals p (tid caller)) = 0
      \<and> cu_context d \<noteq> 0 \<and> GetDeviceId ci (cu_context d) = (CUPTI_SUCCESS, dv)
      \<and> dv < word_of_int (num_gpus (tracer p)) \<and> callbackSite d = CUPTI_API_EXIT
      \<and> \<not> TooManyCallbackEvents (tracer p) \<and> is_cuda_graph_node_cbid c
      \<and> node_id_map (per_thread_graph_info (thread_locals p (tid caller))) = []"
  then show "HandleCallback ci p caller (DriverApiCallback c d) = Inl EmptyMapBeginDereference"
    using HandleCallback_empty_node_map by blast
qed

theorem SetCudaGraphNodeEventUponApiExit_needs_node_entry_witness:
  "HandleCallback example_interface (example_process (example_collector 0 0 0)) example_caller
      (DriverApiCallback cuGraphAddKernelNode (example_exit ''cuGraphAddKernelNode''))
     = Inl EmptyMapBeginDereference
   \<and> SetCudaGraphNodeEventUponApiExit empty_event 0 cuGraphAddKernelNode
        (example_exit ''cuGraphAddKernelNode'') 100 200 7 initial_thread_local
     = Inl EmptyMapBeginDereference
   \<and> (\<exists>event' tlocal'.
        SetCudaGraphNodeEventUponApiExit empty_event 0 cuGraphAddKernelNode
          (example_exit ''cuGraphAddKernelNode'') 100 200 7
          (initial_thread_local\<lparr>per_thread_graph_info :=
             \<lparr>info_graph_id = 0, info_orig_graph_id = 0, node_id_map = [(4, 0)]\<rparr>\<rparr>)
          = Inr (event', tlocal')
        \<and> graph_node_id event' = 4
        \<and> orig_graph_node_id (cuda_graph_info event') = 0
        \<and> node_id_map (per_thread_graph_info tlocal') = [])"
proof -
  have a: "HandleCallback example_interface (example_process (example_collector 0 0 0))
      example_caller
      (DriverApiCallback cuGraphAddKernelNode (example_exit ''cuGraphAddKernelNode''))
     = Inl EmptyMapBeginDereference"
    using SetCudaGraphNodeEventUponApiExit_needs_node_entry
      [of initial_thread_local empty_event 0 cuGraphAddKernelNode
          "example_exit ''cuGraphAddKernelNode''" 100 200 7 4 0 "[]"
          "example_process (example_collector 0 0 0)" example_caller
          "example_exit ''cuGraphAddKernelNode''" example_interface 0 cuGraphAddKernelNode]
    by (simp add: example_process_def example_tracer_def example_collector_def
        example_caller_def example_exit_def example_interface_def initial_thread_local_def
        TooManyCallbackEvents_def)
  have b: "SetCudaGraphNodeEventUponApiExit empty_event 0 cuGraphAddKernelNode
        (example_exit ''cuGraphAddKernelNode'') 100 200 7 initial_thread_local
     = Inl EmptyMapBeginDereference"
    using SetCudaGraphNodeEventUponApiExit_needs_node_entry
      [of initial_thread_local empty_event 0 cuGraphAddKernelNode
          "example_exit ''cuGraphAddKernelNode''" 100 200 7 4 0 "[]"
          "example_process (example_collector 0 0 0)" example_caller
          "example_exit ''cuGraphAddKernelNode''" example_interface 0 cuGraphAddKernelNode]
    by (simp add: initial_thread_local_def)
  have c: "\<exists>event' tlocal'.
        SetCudaGraphNodeEventUponApiExit empty_event 0 cuGraphAddKernelNode
          (example_exit ''cuGraphAddKernelNode'') 100 200 7
          (initial_thread_local\<lparr>per_thread_graph_info :=
             \<lparr>info_graph_id = 0, info_orig_graph_id = 0, node_id_map = [(4, 0)]\<rparr>\<rparr>)
          = Inr (event', tlocal')
        \<and> graph_node_id event' = 4
        \<and> orig_graph_node_id (cuda_graph_info event') = 0
        \<and> node_id_map (per_thread_graph_info tlocal') = []"
    using SetCudaGraphNodeEventUponApiExit_needs_node_entry
      [of "initial_thread_local\<lparr>per_thread_graph_info :=
             \<lparr>info_graph_id = 0, info_orig_graph_id = 0, node_id_map = [(4, 0)]\<rparr>\<rparr>"
          empty_event 0 cuGraphAddKernelNode
          "example_exit ''cuGraphAddKernelNode''" 100 200 7 4 0 "[]"
          "example_process (example_collector 0 0 0)" example_caller
          "example_exit ''cuGraphAddKernelNode''" example_interface 0 cuGraphAddKernelNode]
    by simp
  show ?thesis using a b c by blast
qed

subsection \<open>The ceiling on callback events\<close>

lemma registered_PerThread_Get:
  "registered (PerThread_Get p t) = (if t \<in> set (registered p) then registered p else registered p @ [t])"
  by (simp add: PerThread_Get_def)

lemma AddDriverApiCallbackEvent_dropped:
  "TooManyCallbackEvents (tracer p)
   \<Longrightarrow> AddDriverApiCallbackEvent ci p caller dev s e cb cbdata
       = Inr (OkStatus,
              set_buffer (PerThread_Get p (tid caller)) (tid caller)
                (IncNumDroppedEvents (annotations_and_events (thread_locals p (tid caller)))))"
  by (simp add: AddDriverApiCallbackEvent_def Let_def)

lemma AddDriverApiCallbackEvent_counts:
  assumes "AddDriverApiCallbackEvent ci p caller dev s e cb cbdata = Inr (st, p')"
  shows "collector (tracer p') = collector (tracer p)
       \<and> num_callback_events (tracer p')
           = (if TooManyCallbackEvents (tracer p) then num_callback_events (tracer p)
              else num_callback_events (tracer p) + 1)"
  using assms
  by (auto simp: AddDriverApiCallbackEvent_def Let_def set_buffer_def IncCallbackEventCount_def
      split: if_splits sum.splits prod.splits)

lemma TooManyCallbackEvents_iff:
  "collector tr = Some c \<Longrightarrow> max_callback_api_events (GetOptions c) = N \<Longrightarrow> 0 < N
   \<Longrightarrow> TooManyCallbackEvents tr = (N \<le> num_callback_events tr)"
  by (simp add: TooManyCallbackEvents_def Let_def)

lemma AddDriverApiCallbackEvents_count:
  assumes "collector (tracer p0) = Some c" and "max_callback_api_events (GetOptions c) = N"
    and "0 < N"
    and "AddDriverApiCallbackEvents ci p0 calls = Inr p"
    and "num_callback_events (tracer p0) + length calls \<le> N"
  shows "collector (tracer p) = Some c
       \<and> num_callback_events (tracer p) = num_callback_events (tracer p0) + length calls"
  using assms
proof (induction calls arbitrary: p0)
  case Nil
  then show ?case by simp
next
  case (Cons x xs)
  obtain caller dev s e cb cbdata where x: "x = (caller, dev, s, e, cb, cbdata)"
    by (cases x) auto
  from Cons.prems(4) obtain st p1 where
    one: "AddDriverApiCallbackEvent ci p0 caller dev s e cb cbdata = Inr (st, p1)"
    and rest: "AddDriverApiCallbackEvents ci p1 xs = Inr p"
    unfolding x by (auto split: sum.splits)
  have notmany: "\<not> TooManyCallbackEvents (tracer p0)"
    using TooManyCallbackEvents_iff [OF Cons.prems(1,2,3)] Cons.prems(5) by simp
  from AddDriverApiCallbackEvent_counts [OF one] notmany
  have c1: "collector (tracer p1) = Some c"
    and n1: "num_callback_events (tracer p1) = num_callback_events (tracer p0) + 1"
    using Cons.prems(1) by simp_all
  have "collector (tracer p) = Some c
       \<and> num_callback_events (tracer p) = num_callback_events (tracer p1) + length xs"
    using Cons.IH [OF c1 Cons.prems(2,3) rest] n1 Cons.prems(5) by simp
  then show ?case using n1 by simp
qed

text \<open>Buffers that hold the same events are consumed to batches with the same events.\<close>

lemma consume_all_events:
  assumes "\<And>t. event_queue (annotations_and_events (tls t))
              = event_queue (annotations_and_events (tls' t))"
  shows "map event_queue (fst (consume_all tls ts)) = map event_queue (fst (consume_all tls' ts))"
  using assms
proof (induction ts arbitrary: tls tls')
  case Nil
  show ?case by simp
next
  case (Cons t ts)
  let ?u = "tls(t := (tls t)\<lparr>annotations_and_events := empty_annotations_and_events\<rparr>)"
  let ?u' = "tls'(t := (tls' t)\<lparr>annotations_and_events := empty_annotations_and_events\<rparr>)"
  have "map event_queue (fst (consume_all ?u ts)) = map event_queue (fst (consume_all ?u' ts))"
    by (rule Cons.IH) (simp add: Cons.prems)
  then show ?case
    using Cons.prems [of t] by (simp add: Consume_def split_def)
qed

text \<open>
  C4. The collector's ceiling for callback events is \<open>N > 0\<close> and the count starts at
  \<open>0\<close>, as \<open>PrepareCallbackStart\<close> leaves it. After \<open>N\<close> driver-API exits have gone through
  \<open>AddDriverApiCallbackEvent\<close>, the next one returns OK, adds one to the dropped-event
  counter of the calling thread's buffer, leaves the events of every thread's buffer as
  they were, so that the batches a gather delivers hold the same events as without it, and
  leaves the tracer object (its flags and counters) unchanged.
\<close>

theorem exceed_max_callback_events:
  assumes "collector (tracer p0) = Some c"
    and "max_callback_api_events (GetOptions c) = N"
    and "0 < N"
    and "num_callback_events (tracer p0) = 0"
    and "AddDriverApiCallbackEvents ci p0 calls = Inr p"
    and "length calls = N"
  shows "\<exists>p'. AddDriverApiCallbackEvent ci p caller dev s e cb cbdata = Inr (OkStatus, p')
     \<and> num_dropped_events (annotations_and_events (thread_locals p' (tid caller)))
         = num_dropped_events (annotations_and_events (thread_locals p (tid caller))) + 1
     \<and> (\<forall>t. thread_events p' t = thread_events p t)
     \<and> map event_queue (fst (GatherCallbackAnnotationsAndEvents p' stop))
         = map event_queue
             (fst (GatherCallbackAnnotationsAndEvents (PerThread_Get p (tid caller)) stop))
     \<and> tracer p' = tracer p"
proof -
  have cnt: "collector (tracer p) = Some c \<and> num_callback_events (tracer p) = N"
    using AddDriverApiCallbackEvents_count [OF assms(1,2,3,5)] assms(4,6) by simp
  then have many: "TooManyCallbackEvents (tracer p)"
    using TooManyCallbackEvents_iff [of "tracer p" c N] assms(2,3) by simp
  let ?p' = "set_buffer (PerThread_Get p (tid caller)) (tid caller)
                (IncNumDroppedEvents (annotations_and_events (thread_locals p (tid caller))))"
  have r: "AddDriverApiCallbackEvent ci p caller dev s e cb cbdata = Inr (OkStatus, ?p')"
    using many by (rule AddDriverApiCallbackEvent_dropped)
  have d: "num_dropped_events (annotations_and_events (thread_locals ?p' (tid caller)))
         = num_dropped_events (annotations_and_events (thread_locals p (tid caller))) + 1"
    by (simp add: set_buffer_def IncNumDroppedEvents_def)
  have ev: "event_queue (annotations_and_events (thread_locals ?p' t))
          = event_queue (annotations_and_events (thread_locals p t))" for t
    by (simp add: set_buffer_def IncNumDroppedEvents_def)
  then have ev': "\<forall>t. thread_events ?p' t = thread_events p t"
    by (simp add: thread_events_def)
  have reg: "registered ?p' = registered (PerThread_Get p (tid caller))"
    by (simp add: set_buffer_def)
  have g: "map event_queue (fst (GatherCallbackAnnotationsAndEvents ?p' stop))
         = map event_queue
             (fst (GatherCallbackAnnotationsAndEvents (PerThread_Get p (tid caller)) stop))"
    using consume_all_events [of "thread_locals ?p'" "thread_locals p"
        "registered (PerThread_Get p (tid caller))"] ev
    by (simp add: GatherCallbackAnnotationsAndEvents_def reg split_def)
  have tr: "tracer ?p' = tracer p"
    by (simp add: set_buffer_def)
  show ?thesis using r d ev' g tr by blast
qed

theorem exceed_max_callback_events_witness:
  "\<exists>p'. AddDriverApiCallbackEvent example_interface
            (projr (AddDriverApiCallbackEvents example_interface
                      (example_process (example_collector 2 0 0))
                      [(example_caller, 0, 100, 200, OtherCbid 1, example_exit ''cuLaunchKernel''),
                       (example_caller, 0, 300, 400, OtherCbid 1, example_exit ''cuLaunchKernel'')]))
            example_caller 0 500 600 (OtherCbid 1) (example_exit ''cuLaunchKernel'')
          = Inr (OkStatus, p')
     \<and> num_dropped_events (annotations_and_events (thread_locals p' 7)) = 1
     \<and> length (thread_events p' 7) = 2"
proof -
  let ?calls = "[(example_caller, 0, 100, 200, OtherCbid 1, example_exit ''cuLaunchKernel''),
                 (example_caller, 0, 300, 400, OtherCbid 1, example_exit ''cuLaunchKernel'')]"
  let ?p0 = "example_process (example_collector 2 0 0)"
  let ?r = "AddDriverApiCallbackEvents example_interface ?p0 ?calls"
  have c: "collector (tracer ?p0) = Some (example_collector 2 0 0)"
    and n: "max_callback_api_events (GetOptions (example_collector 2 0 0)) = 2"
    and z: "num_callback_events (tracer ?p0) = 0"
    by (simp_all add: example_process_def example_tracer_def example_collector_def)
  have "\<not> isl ?r" by code_simp
  then have run: "?r = Inr (projr ?r)" by (cases ?r) simp_all
  have before: "num_dropped_events (annotations_and_events (thread_locals (projr ?r) 7)) = 0"
    "length (thread_events (projr ?r) 7) = 2"
    by code_simp+
  have t: "tid example_caller = 7" by (simp add: example_caller_def)
  show ?thesis
    using exceed_max_callback_events
        [OF c n _ z run, of example_caller 0 500 600 "OtherCbid 1"
            "example_exit ''cuLaunchKernel''" False]
      before t
    by auto
qed

subsection \<open>What the life-cycle steps add to the trace\<close>





























subsection \<open>Disable and flush\<close>











subsection \<open>Backpressure on activity buffers\<close>

lemma next_record_loop_eq: "next_record_loop n k = k + n"
  by (induction n arbitrary: k) simp_all

text \<open>
  C5, as the code has it. A non-empty filled buffer arrives while activity tracing is on
  and the interface is not disabled. The test is on the counter of activity events cached
  since activity tracing started. If a ceiling is configured and the counter has reached
  it, the buffer is not cached: its event count is added to the dropped-buffer counter and
  the buffer goes back to the pool. Otherwise the buffer is cached with its valid size and
  its event count is added to the counter.
\<close>

theorem ProcessActivityBuffer_backpressure:
  assumes "valid_size \<noteq> 0" and "buffer \<noteq> 0"
    and "activity_tracing_enabled (tracer p)" and "\<not> Disabled ci"
    and "collector (tracer p) = Some c"
    and "activity_buffers (tracer p) = Some m"
    and "max_activity_api_events (GetOptions c) = cap"
  shows "(0 < cap \<and> cap \<le> num_activity_events_in_cached_buffer (tracer p)
      \<longrightarrow> (\<exists>p'. ProcessActivityBuffer ci p ctx stream_id buffer valid_size = Inr (OkStatus, p')
            \<and> activity_buffers (tracer p') = Some (m\<lparr>pool := pool m @ [buffer]\<rparr>)
            \<and> num_activity_events_in_dropped_buffer (tracer p')
                = num_activity_events_in_dropped_buffer (tracer p)
                  + activity_records ci buffer valid_size
            \<and> num_activity_events_in_cached_buffer (tracer p')
                = num_activity_events_in_cached_buffer (tracer p)))
   \<and> (\<not> (0 < cap \<and> cap \<le> num_activity_events_in_cached_buffer (tracer p))
      \<longrightarrow> (\<exists>p'. ProcessActivityBuffer ci p ctx stream_id buffer valid_size = Inr (OkStatus, p')
            \<and> activity_buffers (tracer p')
                = Some (m\<lparr>cached_buffers := cached_buffers m @ [(buffer, valid_size)]\<rparr>)
            \<and> num_activity_events_in_cached_buffer (tracer p')
                = num_activity_events_in_cached_buffer (tracer p)
                  + activity_records ci buffer valid_size
            \<and> num_activity_events_in_dropped_buffer (tracer p')
                = num_activity_events_in_dropped_buffer (tracer p)))"
  using assms
  by (simp add: ProcessActivityBuffer_def buffer_cleanup_def CountCuptiActivityEvent_def
      next_record_loop_eq Let_def ReclaimBuffer_def CacheCuptiFilledActivityBuffer_def
      split_def)

theorem ProcessActivityBuffer_backpressure_witness:
  "(\<exists>p'. ProcessActivityBuffer example_interface (example_loaded_process (example_collector 0 5 0))
            1 0 8192 3 = Inr (OkStatus, p')
        \<and> activity_buffers (tracer p')
            = Some \<lparr>buffer_size_in_bytes = 4096, pool = [8192], cached_buffers = []\<rparr>
        \<and> num_activity_events_in_dropped_buffer (tracer p') = 3
        \<and> num_activity_events_in_cached_buffer (tracer p') = 5)
   \<and> (\<exists>p'. ProcessActivityBuffer example_interface (example_process (example_collector 0 5 0))
            1 0 8192 3 = Inr (OkStatus, p')
        \<and> activity_buffers (tracer p')
            = Some \<lparr>buffer_size_in_bytes = 4096, pool = [], cached_buffers = [(8192, 3)]\<rparr>
        \<and> num_activity_events_in_cached_buffer (tracer p') = 3
        \<and> num_activity_events_in_dropped_buffer (tracer p') = 0)"
proof -
  let ?c = "example_collector 0 5 0"
  let ?m = "\<lparr>buffer_size_in_bytes = 4096, pool = [], cached_buffers = []\<rparr>"
  have over: "\<exists>p'. ProcessActivityBuffer example_interface (example_loaded_process ?c)
            1 0 8192 3 = Inr (OkStatus, p')
        \<and> activity_buffers (tracer p')
            = Some \<lparr>buffer_size_in_bytes = 4096, pool = [8192], cached_buffers = []\<rparr>
        \<and> num_activity_events_in_dropped_buffer (tracer p') = 3
        \<and> num_activity_events_in_cached_buffer (tracer p') = 5"
    using ProcessActivityBuffer_backpressure
      [of 3 8192 "example_loaded_process ?c" example_interface ?c ?m 5 1 0]
    by (simp add: example_loaded_process_def example_process_def example_tracer_def
        example_collector_def example_interface_def)
  have under: "\<exists>p'. ProcessActivityBuffer example_interface (example_process ?c)
            1 0 8192 3 = Inr (OkStatus, p')
        \<and> activity_buffers (tracer p')
            = Some \<lparr>buffer_size_in_bytes = 4096, pool = [], cached_buffers = [(8192, 3)]\<rparr>
        \<and> num_activity_events_in_cached_buffer (tracer p') = 3
        \<and> num_activity_events_in_dropped_buffer (tracer p') = 0"
    using ProcessActivityBuffer_backpressure
      [of 3 8192 "example_process ?c" example_interface ?c ?m 5 1 0]
    by (simp add: example_process_def example_tracer_def
        example_collector_def example_interface_def)
  show ?thesis using over under by blast
qed

text \<open>
  With a ceiling of five events: a buffer of five is cached, a flush delivers it, so that
  no cached event is undelivered, and the next buffer is still dropped: nothing is cached,
  the buffer is in the pool and its one event is counted as dropped.
\<close>

theorem cumulative_cap_drops_after_flush:
  "example_overload_run = Inr (0, [], [8192], 1)"
  by code_simp

section \<open>Driver-API callbacks that cannot be attributed to a device\<close>

subsection \<open>The tracer's own calls\<close>

text \<open>
  \<open>internalCuCall\<close> is changed by \<open>CuptiApiTracingDisabler\<close> alone, and the one object of that
  class lives inside \<open>SyncAndFlush\<close>. So every operation on the tracer leaves the count of
  every thread as it found it.
\<close>

lemma own_calls_fields [simp]:
  "own_calls (p\<lparr>trace := x\<rparr>) = own_calls p"
  "own_calls (p\<lparr>tracer := y\<rparr>) = own_calls p"
  "own_calls (p\<lparr>registered := z\<rparr>) = own_calls p"
  by (simp_all add: own_calls_def)

lemma own_calls_vendor [simp]: "own_calls (snd (vendor ci p call)) = own_calls p"
  by (simp add: vendor_def)

lemma own_calls_vendor_ignored [simp]: "own_calls (vendor_ignored ci p call) = own_calls p"
  by (simp add: vendor_ignored_def)

lemma own_calls_checked [simp]: "own_calls (snd (checked ci p call)) = own_calls p"
  by (simp add: checked_def split_def)

lemma own_calls_notify [simp]: "own_calls (notify p call) = own_calls p"
  by (simp add: notify_def)

lemma own_calls_checked_all [simp]: "own_calls (snd (checked_all ci p calls)) = own_calls p"
  by (induction calls arbitrary: p) (simp_all add: split_def)

lemma own_calls_set_flags [simp]:
  "own_calls (set_api_tracing_enabled p b) = own_calls p"
  "own_calls (set_activity_tracing_enabled p b) = own_calls p"
  "own_calls (set_pm_sampling_enabled p b) = own_calls p"
  by (simp_all add: set_api_tracing_enabled_def set_activity_tracing_enabled_def
      set_pm_sampling_enabled_def)

lemma own_calls_PerThread_Get [simp]: "own_calls (PerThread_Get p t) = own_calls p"
  by (simp add: PerThread_Get_def)

lemma own_calls_PrepareActivityStart [simp]: "own_calls (PrepareActivityStart ci p) = own_calls p"
  by (simp add: PrepareActivityStart_def)

lemma internalCuCall_clear_all:
  "internalCuCall (clear_all tls ts t) = internalCuCall (tls t)"
  by (induction ts arbitrary: tls) simp_all

lemma own_calls_PrepareCallbackStart [simp]: "own_calls (PrepareCallbackStart p) = own_calls p"
  by (simp add: PrepareCallbackStart_def own_calls_def internalCuCall_clear_all)

lemma internalCuCall_consume_all:
  "internalCuCall (snd (consume_all tls ts) t) = internalCuCall (tls t)"
  by (induction ts arbitrary: tls) (simp_all add: split_def)

lemma own_calls_Gather [simp]:
  "own_calls (snd (GatherCallbackAnnotationsAndEvents p b)) = own_calls p"
  by (simp add: GatherCallbackAnnotationsAndEvents_def split_def own_calls_def
      internalCuCall_consume_all)

lemma own_calls_checkedD:
  "checked ci p call = (st, p') \<Longrightarrow> own_calls p' = own_calls p"
  using own_calls_checked [of ci p call] by simp

lemma own_calls_checked_allD:
  "checked_all ci p calls = (st, p') \<Longrightarrow> own_calls p' = own_calls p"
  using own_calls_checked_all [of ci p calls] by simp

lemma own_calls_EnableApiTracing:
  "EnableApiTracing ci p = Inr (st, p') \<Longrightarrow> own_calls p' = own_calls p"
  by (auto simp: EnableApiTracing_def split_def split: if_splits option.splits
      dest!: own_calls_checkedD own_calls_checked_allD)

lemma own_calls_ConfigureActivityUnifiedMemoryCounter [simp]:
  "own_calls (ConfigureActivityUnifiedMemoryCounter ci p b) = own_calls p"
  by (simp add: ConfigureActivityUnifiedMemoryCounter_def)

lemma own_calls_enable_activities [simp]:
  "own_calls (snd (enable_activities ci p acts)) = own_calls p"
  by (induction acts arbitrary: p) (simp_all add: split_def Let_def)

lemma own_calls_disable_activities [simp]:
  "own_calls (snd (disable_activities ci p acts)) = own_calls p"
  by (induction acts arbitrary: p) (simp_all add: split_def Let_def)

lemma own_calls_enable_activitiesD:
  "enable_activities ci p acts = (st, p') \<Longrightarrow> own_calls p' = own_calls p"
  using own_calls_enable_activities [of ci p acts] by simp

lemma own_calls_disable_activitiesD:
  "disable_activities ci p acts = (st, p') \<Longrightarrow> own_calls p' = own_calls p"
  using own_calls_disable_activities [of ci p acts] by simp

lemma own_calls_EnableActivityTracing:
  "EnableActivityTracing ci p = Inr (st, p') \<Longrightarrow> own_calls p' = own_calls p"
  by (auto simp: EnableActivityTracing_def split_def Let_def split: if_splits option.splits
      dest!: own_calls_checkedD own_calls_enable_activitiesD)

lemma own_calls_DisableApiTracing:
  "DisableApiTracing ci p = Inr (st, p') \<Longrightarrow> own_calls p' = own_calls p"
  by (auto simp: DisableApiTracing_def split_def split: if_splits option.splits
      dest!: own_calls_checkedD own_calls_checked_allD)

lemma own_calls_DisableActivityTracing:
  "DisableActivityTracing ci p = Inr (st, p') \<Longrightarrow> own_calls p' = own_calls p"
  by (auto simp: DisableActivityTracing_def split_def split: if_splits option.splits
      dest!: own_calls_checkedD own_calls_disable_activitiesD)

lemma own_calls_stop_pm_sampling:
  "stop_pm_sampling ci p = Inr p' \<Longrightarrow> own_calls p' = own_calls p"
  by (auto simp: stop_pm_sampling_def split: if_splits option.splits)

lemma own_calls_Finalize:
  "Finalize ci p = Inr (st, p') \<Longrightarrow> own_calls p' = own_calls p"
  by (auto simp: Finalize_def split_def split: if_splits option.splits
      dest!: own_calls_checkedD)

lemma own_calls_sync_contexts [simp]: "own_calls (sync_contexts ci p ctxs) = own_calls p"
  by (induction ctxs arbitrary: p) simp_all

lemma own_calls_add_internalCuCall:
  "own_calls (add_internalCuCall p t d) = (own_calls p)(t := own_calls p t + d)"
  by (simp add: add_internalCuCall_def own_calls_def fun_eq_iff)

text \<open>The disabler of \<open>SyncAndFlush\<close> leaves the count where it found it.\<close>

lemma own_calls_SyncAndFlush:
  "SyncAndFlush ci h t p = (st, p') \<Longrightarrow> own_calls p' = own_calls p"
  by (auto simp: SyncAndFlush_def own_calls_add_internalCuCall fun_eq_iff split: if_splits)

lemma own_calls_deliver_and_release [simp]:
  "own_calls (deliver_and_release ci p caller) = own_calls p"
  by (simp add: deliver_and_release_def Let_def split_def split: option.splits)

lemma own_calls_Disable:
  assumes "Disable ci p caller = Inr p'"
  shows "own_calls p' = own_calls p"
proof -
  obtain p1 where 1: "stop_pm_sampling ci p = Inr p1"
    using assms by (cases "stop_pm_sampling ci p") (simp_all add: Disable_def bind_error_def)
  obtain st2 p2 where 2: "DisableApiTracing ci p1 = Inr (st2, p2)"
    using assms 1 by (cases "DisableApiTracing ci p1") (auto simp: Disable_def bind_error_def)
  obtain st3 p3 where 3: "DisableActivityTracing ci p2 = Inr (st3, p3)"
    using assms 1 2
    by (cases "DisableActivityTracing ci p2") (auto simp: Disable_def bind_error_def)
  define p3' where "p3' = vendor_ignored ci p3 CleanUp"
  obtain st4 p4 where 4: "Finalize ci p3' = Inr (st4, p4)"
    using assms 1 2 3
    by (cases "Finalize ci p3'") (auto simp: Disable_def bind_error_def p3'_def)
  obtain h where h: "cupti_driver_api_hook (tracer p4) = Some h"
    using assms 1 2 3 4
    by (cases "cupti_driver_api_hook (tracer p4)")
      (auto simp: Disable_def bind_error_def p3'_def)
  obtain st5 p5 where 5: "SyncAndFlush ci h (tid caller) p4 = (st5, p5)"
    by (cases "SyncAndFlush ci h (tid caller) p4")
  have rest: "(case collector (tracer p5) of
                 None \<Rightarrow> Inl NullPointerDereference
               | Some c \<Rightarrow> Inr (deliver_and_release ci p5 caller)) = Inr p'"
    using assms 1 2 3 4 h 5 by (simp add: Disable_def bind_error_def p3'_def)
  then have p': "p' = deliver_and_release ci p5 caller"
    by (cases "collector (tracer p5)") simp_all
  show ?thesis
    using own_calls_stop_pm_sampling [OF 1] own_calls_DisableApiTracing [OF 2]
      own_calls_DisableActivityTracing [OF 3] own_calls_Finalize [OF 4]
      own_calls_SyncAndFlush [OF 5]
    by (simp add: p' p3'_def)
qed

lemma own_calls_Enable:
  assumes "Enable ci p opt c = Inr (st, p')"
  shows "own_calls p' = own_calls p"
proof -
  define opt1 where "opt1 = (if enable_nvtx_tracking opt
                    \<and> CUPTI_ACTIVITY_KIND_MARKER \<notin> set (activities_selected opt)
                 then opt\<lparr>activities_selected :=
                             activities_selected opt @ [CUPTI_ACTIVITY_KIND_MARKER]\<rparr>
                 else opt)"
  define p1 where "p1 = p\<lparr>tracer := (tracer p)
                  \<lparr>option := Some opt1, collector := Some c,
                   cupti_driver_api_hook := Some \<lparr>hook_option = opt1, contexts = []\<rparr>\<rparr>\<rparr>"
  have o1: "own_calls p1 = own_calls p" by (simp add: p1_def)
  obtain st2 p2 where 2: "EnableApiTracing ci p1 = Inr (st2, p2)"
    using assms
    by (cases "EnableApiTracing ci p1")
      (auto simp: Enable_def bind_error_def Let_def opt1_def p1_def)
  have o2: "own_calls p2 = own_calls p" using own_calls_EnableApiTracing [OF 2] o1 by simp
  define p3 where "p3 = p2\<lparr>tracer := (tracer p2)
                       \<lparr>need_root_access :=
                          (need_root_access (tracer p2)
                           \<or> (case st2 of PermissionDeniedError m \<Rightarrow> True | _ \<Rightarrow> False))\<rparr>\<rparr>"
  have o3: "own_calls p3 = own_calls p" using o2 by (simp add: p3_def)
  show ?thesis
  proof (cases "st2 = OkStatus")
    case False
    with assms 2 have "p' = p3"
      by (auto simp: Enable_def bind_error_def Let_def opt1_def [symmetric] p1_def [symmetric]
          p3_def)
    with o3 show ?thesis by simp
  next
    case True
    have p3: "p3 = p2" using True by (simp add: p3_def)
    obtain st4 p4 where 4: "EnableActivityTracing ci p2 = Inr (st4, p4)"
      using assms 2 True
      by (cases "EnableActivityTracing ci p2")
        (auto simp: Enable_def bind_error_def Let_def opt1_def [symmetric] p1_def [symmetric])
    have o4: "own_calls p4 = own_calls p" using own_calls_EnableActivityTracing [OF 4] o2 by simp
    have "own_calls p' = own_calls p4"
      using assms 2 True 4
      by (auto simp: Enable_def bind_error_def Let_def opt1_def [symmetric] p1_def [symmetric]
          split_def split: option.splits if_splits dest!: own_calls_checkedD)
    with o4 show ?thesis by simp
  qed
qed

lemma own_calls_FlushEventsToCollector:
  "FlushEventsToCollector ci p = Inr (st, p') \<Longrightarrow> own_calls p' = own_calls p"
  by (auto simp: FlushEventsToCollector_def bind_error_def split_def PopCachedBuffers_def
      split: if_splits option.splits)

lemma own_calls_ProcessActivityBuffer:
  "ProcessActivityBuffer ci p ctx stream_id buffer valid_size = Inr (st, p')
   \<Longrightarrow> own_calls p' = own_calls p"
  by (auto simp: ProcessActivityBuffer_def buffer_cleanup_def Let_def split_def
      split: if_splits option.splits)

lemma internalCuCall_SetCallbackEventUponApiExit:
  "SetCallbackEventUponApiExit ci ev dev cb cbdata s e th tlocal tr = Inr (ev', tlocal')
   \<Longrightarrow> internalCuCall tlocal' = internalCuCall tlocal"
  by (auto simp: SetCallbackEventUponApiExit_def SetCudaGraphEventUponApiExit_def
      SetCudaGraphNodeEventUponApiExit_def Let_def split: if_splits list.splits)

lemma own_calls_AddDriverApiCallbackEvent:
  assumes "AddDriverApiCallbackEvent ci p caller dev s e cb cbdata = Inr (st, p')"
  shows "own_calls p' = own_calls p"
proof (cases "TooManyCallbackEvents (tracer p)")
  case True
  with assms show ?thesis
    by (auto simp: AddDriverApiCallbackEvent_def Let_def set_buffer_def own_calls_def fun_eq_iff)
next
  case False
  define tl1 where "tl1 = (thread_locals p (tid caller))\<lparr>annotations_and_events :=
       AddScopeRangeIdSequence (annotations_and_events (thread_locals p (tid caller)))
         (scope_range_ids_now caller)\<rparr>"
  define ev where "ev = empty_event
                  \<lparr>correlation_id := correlationId cbdata,
                   annotation := annotation_now caller,
                   nvtx_range := [],
                   scope_range_id := (if scope_range_ids_now caller = [] then 0
                                      else last (scope_range_ids_now caller))\<rparr>"
  define tr where "tr = IncCallbackEventCount (tracer p)"
  obtain ev' tl2 where set: "SetCallbackEventUponApiExit ci ev dev cb cbdata s e
                      (tid caller) tl1 tr = Inr (ev', tl2)"
    using assms False
    by (cases "SetCallbackEventUponApiExit ci ev dev cb cbdata s e (tid caller) tl1 tr")
      (auto simp: AddDriverApiCallbackEvent_def Let_def tl1_def ev_def tr_def)
  have p': "p' = (PerThread_Get p (tid caller))\<lparr>tracer := tr,
                          thread_locals := (thread_locals p)
                            (tid caller := tl2\<lparr>annotations_and_events :=
                               Push tr (annotations_and_events tl2) ev'\<rparr>)\<rparr>"
    using assms False set
    by (simp add: AddDriverApiCallbackEvent_def Let_def tl1_def ev_def tr_def)
  have "internalCuCall tl2 = internalCuCall (thread_locals p (tid caller))"
    using internalCuCall_SetCallbackEventUponApiExit [OF set] by (simp add: tl1_def)
  then show ?thesis
    by (simp add: p' own_calls_def fun_eq_iff)
qed

lemma own_calls_HandleDriverApiCallback:
  assumes "HandleDriverApiCallback ci p caller cb cbdata = Inr (st, p', slot)"
  shows "own_calls p' = own_calls p"
proof -
  have exit: "OnDriverApiExit ci h p caller dev cb cbdata = Inr (st', q)
              \<Longrightarrow> own_calls q = own_calls p" for h dev st' q
    using own_calls_AddDriverApiCallbackEvent
    by (fastforce simp: OnDriverApiExit_def Let_def)
  show ?thesis
    using assms exit
    by (auto simp: HandleDriverApiCallback_def OnDriverApiEnter_def split_def
        split: if_splits option.splits sum.splits)
qed

lemma own_calls_HandleResourceCallback [simp]:
  "own_calls (snd (HandleResourceCallback ci p caller cb graph_data)) = own_calls p"
  by (simp add: HandleResourceCallback_def Let_def own_calls_def fun_eq_iff)

lemma own_calls_ApiCallback:
  assumes "ApiCallback ci p caller c = Inr p'"
  shows "own_calls p' = own_calls p"
proof -
  have res: "HandleResourceCallback ci p caller cb gd = (st, q) \<Longrightarrow> own_calls q = own_calls p"
    for cb gd st q
    using own_calls_HandleResourceCallback [of ci p caller cb gd] by simp
  show ?thesis
    using assms own_calls_HandleDriverApiCallback res
    by (auto simp: ApiCallback_def HandleCallback_def
        split: if_splits sum.splits Callback.splits prod.splits)
qed

lemma own_calls_step:
  assumes "step ci p operation = Inr p'"
  shows "own_calls p' = own_calls p"
  using assms own_calls_Enable own_calls_Disable own_calls_FlushEventsToCollector
    own_calls_ApiCallback own_calls_ProcessActivityBuffer
  by (auto simp: step_def split: Operation.splits sum.splits prod.splits)

lemma own_calls_session:
  "session ci p operations = Inr p' \<Longrightarrow> own_calls p' = own_calls p"
proof (induction operations arbitrary: p)
  case Nil
  then show ?case by simp
next
  case (Cons operation operations)
  then obtain q where q: "step ci p operation = Inr q" and r: "session ci q operations = Inr p'"
    by (auto split: sum.splits)
  show ?case using Cons.IH [OF r] own_calls_step [OF q] by simp
qed

text \<open>No session leaves a thread inside one of the tracer's own calls.\<close>

lemma session_no_own_call:
  assumes "session ci (fresh_process n) operations = Inr p"
  shows "internalCuCall (thread_locals p t) = 0"
proof -
  have "own_calls p = own_calls (fresh_process n)"
    using assms by (rule own_calls_session)
  then have "own_calls p t = own_calls (fresh_process n) t" by simp
  then show ?thesis
    by (simp add: own_calls_def fresh_process_def initial_thread_local_def)
qed

subsection \<open>Callbacks while the contexts are synchronised\<close>

text \<open>
  \<open>Disable\<close> calls \<open>SyncAndFlush\<close> after \<open>DisableApiTracing\<close>, which has cleared
  \<open>api_tracing_enabled_\<close>; a callback arriving while \<open>internalCuCall\<close> is raised is
  turned away by \<open>HandleCallback\<close> before it reaches \<open>HandleDriverApiCallback\<close>.
\<close>

lemma HandleCallback_while_disabled:
  "\<not> api_tracing_enabled (tracer p) \<Longrightarrow> HandleCallback ci p caller c = Inr (OkStatus, p)"
  by (simp add: HandleCallback_def)

lemma tracer_vendor_ignored [simp]: "tracer (vendor_ignored ci p call) = tracer p"
  by (simp add: vendor_ignored_def vendor_def)

lemma tracer_checked [simp]: "tracer (snd (checked ci p call)) = tracer p"
  by (simp add: checked_def split_def vendor_def)

lemma tracer_checked_all [simp]: "tracer (snd (checked_all ci p calls)) = tracer p"
  by (induction calls arbitrary: p) (simp_all add: split_def)

lemma tracer_checkedD: "checked ci p call = (st, p') \<Longrightarrow> tracer p' = tracer p"
  using tracer_checked [of ci p call] by simp

lemma tracer_checked_allD: "checked_all ci p calls = (st, p') \<Longrightarrow> tracer p' = tracer p"
  using tracer_checked_all [of ci p calls] by simp

lemma tracer_disable_activities [simp]:
  "tracer (snd (disable_activities ci p acts)) = tracer p"
  by (induction acts arbitrary: p)
    (simp_all add: split_def Let_def ConfigureActivityUnifiedMemoryCounter_def)

lemma tracer_disable_activitiesD:
  "disable_activities ci p acts = (st, p') \<Longrightarrow> tracer p' = tracer p"
  using tracer_disable_activities [of ci p acts] by simp

lemma tracer_sync_contexts [simp]: "tracer (sync_contexts ci p ctxs) = tracer p"
  by (induction ctxs arbitrary: p) simp_all

lemma DisableApiTracing_switches_off:
  "DisableApiTracing ci p = Inr (st, p') \<Longrightarrow> \<not> api_tracing_enabled (tracer p')"
  by (auto simp: DisableApiTracing_def split_def set_api_tracing_enabled_def
      split: if_splits option.splits dest!: tracer_checkedD tracer_checked_allD)

lemma DisableActivityTracing_api_tracing:
  "DisableActivityTracing ci p = Inr (st, p')
   \<Longrightarrow> api_tracing_enabled (tracer p') = api_tracing_enabled (tracer p)"
  by (auto simp: DisableActivityTracing_def split_def set_activity_tracing_enabled_def
      split: if_splits option.splits dest!: tracer_checkedD tracer_disable_activitiesD)

lemma Finalize_tracer: "Finalize ci p = Inr (st, p') \<Longrightarrow> tracer p' = tracer p"
  by (auto simp: Finalize_def split: if_splits option.splits dest!: tracer_checkedD)

lemma Disable_synchronises_while_disabled:
  assumes "DisableApiTracing ci p1 = Inr (st2, p2)"
    and "DisableActivityTracing ci p2 = Inr (st3, p3)"
    and "Finalize ci (vendor_ignored ci p3 CleanUp) = Inr (st4, p4)"
    and "q = sync_contexts ci (add_internalCuCall p4 t 1) ctxs"
  shows "HandleCallback ci q caller c = Inr (OkStatus, q)"
proof -
  have "\<not> api_tracing_enabled (tracer p2)"
    using assms(1) by (rule DisableApiTracing_switches_off)
  then have "\<not> api_tracing_enabled (tracer p3)"
    using DisableActivityTracing_api_tracing [OF assms(2)] by simp
  then have "\<not> api_tracing_enabled (tracer p4)"
    using Finalize_tracer [OF assms(3)] by simp
  then have "\<not> api_tracing_enabled (tracer q)"
    by (simp add: assms(4) add_internalCuCall_def)
  then show ?thesis by (rule HandleCallback_while_disabled)
qed

subsection \<open>Missing context and device id out of range\<close>

lemma word_of_int_le_device:
  fixes dv :: u32
  assumes "0 \<le> n" and "n \<le> uint dv"
  shows "word_of_int n \<le> dv"
proof -
  have "uint dv < 2 ^ 32" using uint_bounded [of dv] by simp
  then have "n mod 2 ^ 32 = n" using assms by simp
  then have "uint (word_of_int n :: u32) = n" by (simp add: uint_word_of_int take_bit_eq_mod)
  then show ?thesis using assms(2) by (simp add: word_le_def)
qed

lemma HandleDriverApiCallback_not_attributable:
  assumes "internalCuCall (thread_locals p (tid caller)) = 0"
    and "cu_context cbdata = 0
        \<or> GetDeviceId ci (cu_context cbdata) = (CUPTI_SUCCESS, dv)
          \<and> 0 \<le> num_gpus (tracer p) \<and> num_gpus (tracer p) \<le> uint dv"
  shows "\<exists>msg. HandleDriverApiCallback ci p caller cb cbdata
                  = Inr (InternalError msg, p, correlationData cbdata)"
proof (cases "cu_context cbdata = 0")
  case True
  with assms(1) show ?thesis by (simp add: HandleDriverApiCallback_def)
next
  case False
  with assms(2) have g: "GetDeviceId ci (cu_context cbdata) = (CUPTI_SUCCESS, dv)"
    and "0 \<le> num_gpus (tracer p)" "num_gpus (tracer p) \<le> uint dv" by auto
  then have "word_of_int (num_gpus (tracer p)) \<le> dv" by (simp add: word_of_int_le_device)
  with assms(1) False g show ?thesis by (simp add: HandleDriverApiCallback_def)
qed

lemma session_append:
  "session ci p (xs @ ys)
     = (case session ci p xs of Inl e \<Rightarrow> Inl e | Inr q \<Rightarrow> session ci q ys)"
  by (induction xs arbitrary: p) (simp_all split: sum.splits)

text \<open>
  C6. In every state \<open>p\<close> that a session of the tracer reaches from program start, a
  driver-API callback whose data has no context, or whose context resolves to a device id
  not below the GPU count, makes \<open>HandleDriverApiCallback\<close> return an internal error: the
  state is unchanged, so no event is created, and the correlation-data slot is untouched.
  \<open>ApiCallback\<close> returns without a crash, and the session goes on from the same state.
\<close>

theorem HandleDriverApiCallback_invalid_state:
  "session ci (fresh_process n) operations = Inr p
     \<and> (cu_context cbdata = 0
        \<or> GetDeviceId ci (cu_context cbdata) = (CUPTI_SUCCESS, dv)
          \<and> 0 \<le> num_gpus (tracer p) \<and> num_gpus (tracer p) \<le> uint dv)
   \<longrightarrow> (\<exists>msg. HandleDriverApiCallback ci p caller cb cbdata
                  = Inr (InternalError msg, p, correlationData cbdata))
      \<and> ApiCallback ci p caller (DriverApiCallback cb cbdata) = Inr p
      \<and> session ci (fresh_process n)
            (operations @ [DoApiCallback caller (DriverApiCallback cb cbdata)]) = Inr p"
proof (intro impI)
  assume a: "session ci (fresh_process n) operations = Inr p
     \<and> (cu_context cbdata = 0
        \<or> GetDeviceId ci (cu_context cbdata) = (CUPTI_SUCCESS, dv)
          \<and> 0 \<le> num_gpus (tracer p) \<and> num_gpus (tracer p) \<le> uint dv)"
  then have run: "session ci (fresh_process n) operations = Inr p"
    and bad: "cu_context cbdata = 0
        \<or> GetDeviceId ci (cu_context cbdata) = (CUPTI_SUCCESS, dv)
          \<and> 0 \<le> num_gpus (tracer p) \<and> num_gpus (tracer p) \<le> uint dv"
    by simp_all
  have own: "internalCuCall (thread_locals p (tid caller)) = 0"
    using run by (rule session_no_own_call)
  have handler: "\<exists>msg. HandleDriverApiCallback ci p caller cb cbdata
                  = Inr (InternalError msg, p, correlationData cbdata)"
    using own bad by (rule HandleDriverApiCallback_not_attributable)
  then have callback: "ApiCallback ci p caller (DriverApiCallback cb cbdata) = Inr p"
    by (auto simp: ApiCallback_def HandleCallback_def)
  have "session ci (fresh_process n)
            (operations @ [DoApiCallback caller (DriverApiCallback cb cbdata)]) = Inr p"
    using run callback by (simp add: session_append step_def)
  with handler callback
  show "(\<exists>msg. HandleDriverApiCallback ci p caller cb cbdata
                  = Inr (InternalError msg, p, correlationData cbdata))
      \<and> ApiCallback ci p caller (DriverApiCallback cb cbdata) = Inr p
      \<and> session ci (fresh_process n)
            (operations @ [DoApiCallback caller (DriverApiCallback cb cbdata)]) = Inr p"
    by simp
qed

theorem HandleDriverApiCallback_invalid_state_witness:
  "(\<exists>p. session example_interface (fresh_process 2) example_session = Inr p
        \<and> Vendor cuCtxSynchronize \<in> set (trace p)
        \<and> api_tracing_enabled (tracer p)
        \<and> (\<exists>msg. HandleDriverApiCallback example_interface p example_caller (OtherCbid 1)
                     example_no_context
                   = Inr (InternalError msg, p, 100))
        \<and> ApiCallback example_interface p example_caller
              (DriverApiCallback (OtherCbid 1) example_no_context) = Inr p
        \<and> session example_interface (fresh_process 2)
              (example_session
               @ [DoApiCallback example_caller
                    (DriverApiCallback (OtherCbid 1) example_no_context)]) = Inr p)
   \<and> (\<exists>p. session (example_interface\<lparr>GetDeviceId := (\<lambda>ctx. (CUPTI_SUCCESS, 5))\<rparr>)
             (fresh_process 2) [DoEnable example_options (example_collector 8 8 8)] = Inr p
        \<and> (\<exists>msg. HandleDriverApiCallback
                     (example_interface\<lparr>GetDeviceId := (\<lambda>ctx. (CUPTI_SUCCESS, 5))\<rparr>)
                     p example_caller (OtherCbid 1) (example_exit ''cuMemAlloc_v2'')
                   = Inr (InternalError msg, p, 100)))"
proof -
  let ?r = "session example_interface (fresh_process 2) example_session"
  have "\<not> isl ?r" by code_simp
  then have run: "?r = Inr (projr ?r)" by (cases ?r) simp_all
  have on: "api_tracing_enabled (tracer (projr ?r))" by code_simp
  have synced: "Vendor cuCtxSynchronize \<in> set (trace (projr ?r))" by code_simp
  have no_ctx: "cu_context example_no_context = 0"
    by (simp add: example_no_context_def)
  have slot: "correlationData example_no_context = 100"
    "correlationData (example_exit ''cuMemAlloc_v2'') = 100"
    by (simp_all add: example_no_context_def example_exit_def)
  have first: "(\<exists>msg. HandleDriverApiCallback example_interface (projr ?r) example_caller
                      (OtherCbid 1) example_no_context
                    = Inr (InternalError msg, projr ?r, 100))
      \<and> ApiCallback example_interface (projr ?r) example_caller
              (DriverApiCallback (OtherCbid 1) example_no_context) = Inr (projr ?r)
      \<and> session example_interface (fresh_process 2)
              (example_session
               @ [DoApiCallback example_caller
                    (DriverApiCallback (OtherCbid 1) example_no_context)]) = Inr (projr ?r)"
    using HandleDriverApiCallback_invalid_state
        [where ci = example_interface and n = 2 and operations = example_session
           and p = "projr ?r" and cbdata = example_no_context and dv = 0
           and caller = example_caller and cb = "OtherCbid 1"]
      run no_ctx slot
    by simp
  let ?ci = "example_interface\<lparr>GetDeviceId := (\<lambda>ctx. (CUPTI_SUCCESS, 5))\<rparr>"
  let ?s = "session ?ci (fresh_process 2) [DoEnable example_options (example_collector 8 8 8)]"
  have "\<not> isl ?s" by code_simp
  then have run2: "?s = Inr (projr ?s)" by (cases ?s) simp_all
  have gpus: "num_gpus (tracer (projr ?s)) = 2" by code_simp
  have dev: "GetDeviceId ?ci (cu_context (example_exit ''cuMemAlloc_v2'')) = (CUPTI_SUCCESS, 5)"
    by simp
  have second: "\<exists>msg. HandleDriverApiCallback ?ci (projr ?s) example_caller (OtherCbid 1)
                      (example_exit ''cuMemAlloc_v2'')
                    = Inr (InternalError msg, projr ?s, 100)"
    using HandleDriverApiCallback_invalid_state
        [where ci = ?ci and n = 2
           and operations = "[DoEnable example_options (example_collector 8 8 8)]"
           and p = "projr ?s" and cbdata = "example_exit ''cuMemAlloc_v2''" and dv = 5
           and caller = example_caller and cb = "OtherCbid 1"]
      run2 gpus dev slot
    by simp
  show ?thesis
  proof (intro conjI)
    show "\<exists>p. ?r = Inr p
        \<and> Vendor cuCtxSynchronize \<in> set (trace p)
        \<and> api_tracing_enabled (tracer p)
        \<and> (\<exists>msg. HandleDriverApiCallback example_interface p example_caller (OtherCbid 1)
                     example_no_context
                   = Inr (InternalError msg, p, 100))
        \<and> ApiCallback example_interface p example_caller
              (DriverApiCallback (OtherCbid 1) example_no_context) = Inr p
        \<and> session example_interface (fresh_process 2)
              (example_session
               @ [DoApiCallback example_caller
                    (DriverApiCallback (OtherCbid 1) example_no_context)]) = Inr p"
      using run on synced first by (intro exI [of _ "projr ?r"]) simp
    show "\<exists>p. ?s = Inr p
        \<and> (\<exists>msg. HandleDriverApiCallback ?ci p example_caller (OtherCbid 1)
                     (example_exit ''cuMemAlloc_v2'')
                   = Inr (InternalError msg, p, 100))"
      using run2 second by (intro exI [of _ "projr ?s"]) simp
  qed
qed

end
